theory Spec2Isabelle
  imports Main
begin

section \<open>The host: a render tree of elements\<close>

text \<open>
  The builder and the two stores run against the browser's document. The part of the
  document they touch is modelled as a table of nodes indexed by object identity:
  elements made by \<^verbatim>\<open>document.createElement\<close> and \<^verbatim>\<open>document.createElementNS\<close>, and the
  shadow roots made by \<^verbatim>\<open>attachShadow\<close>. Strings are byte strings; an absent string
  field and the empty string are both falsy in every test the source makes, so the
  empty string stands for both.

  \<^item> \<open>childNodes\<close> lists the elements put under a node by \<^verbatim>\<open>appendChild\<close>, in order;
    what assigning \<^verbatim>\<open>textContent\<close> or \<^verbatim>\<open>innerHTML\<close> puts there is kept as \<open>content\<close>
    and is not parsed: the elements a browser makes of markup are no nodes of the
    table. The properties that count the elements of a document are therefore stated
    for descriptions without an \<^verbatim>\<open>html\<close> field.
  \<^item> \<open>attributes\<close> is the attribute table of an element, each value tagged with the
    call that wrote it last.
  \<^item> \<open>listeners\<close> are the non-capturing listeners of the node, each a pair of event
    type and handler identity.
\<close>

type_synonym elem = nat
type_synonym handler = nat

datatype node_kind = HTMLElement | SVGElement | ShadowRoot (mode: string)

datatype setter = SetAttribute | SetAttributeNS | Dataset

datatype content = NoContent | TextContent string | InnerHTML string

record dom_node =
  kind :: node_kind
  tagName :: string
  attributes :: "string \<rightharpoonup> setter \<times> string"
  content :: content
  childNodes :: "elem list"
  parentNode :: "elem option"
  listeners :: "(string \<times> handler) list"
  shadowRoot :: "elem option"

text \<open>
  What the source leaves to the browser or to a module outside these files is a
  parameter:
  \<^item> the names \<^verbatim>\<open>createElement\<close>, \<^verbatim>\<open>createElementNS\<close>/\<^verbatim>\<open>setAttributeNS\<close> with a null
    namespace, and \<^verbatim>\<open>setAttribute\<close> accept (they throw on any other name);
  \<^item> the element types \<^verbatim>\<open>attachShadow\<close> accepts;
  \<^item> what reading and assigning a property does when it is found on the prototype
    chain of an element with a receiver that is no element (see \<open>ElementRefStore\<close>);
  \<^item> \<^verbatim>\<open>EventApp["EventActions"]\<close>, the table of actions by name (\<open>None\<close>: no entry, or
    a falsy one).
\<close>

datatype jsval = Undefined | Element elem | Builtin string

datatype assignment = CreatesOwnProperty | ThrowsTypeError | Ignored

record host =
  valid_element_name :: "string \<Rightarrow> bool"
  valid_qualified_name :: "string \<Rightarrow> bool"
  valid_attribute_name :: "string \<Rightarrow> bool"
  valid_shadow_host :: "string \<Rightarrow> bool"
  element_chain_get :: "dom_node \<Rightarrow> string \<Rightarrow> jsval option"
  element_chain_set :: "dom_node \<Rightarrow> string \<Rightarrow> assignment"
  EventActions :: "string \<rightharpoonup> handler"

text \<open>
  \<^verbatim>\<open>const ElementRefStore = {}\<close> is an ordinary object: besides its own properties it
  has a prototype, \<^verbatim>\<open>Object.prototype\<close> until an assignment to the key \<^verbatim>\<open>__proto__\<close>
  replaces it by the assigned element. \<open>proto = None\<close> is the original prototype.
\<close>

record refstore =
  own :: "string \<rightharpoonup> elem"
  proto :: "elem option"

datatype registration =
  Registration (reg_type: string) (reg_handler: handler) (reg_nodeId: "string option")

record state =
  dom :: "elem \<Rightarrow> dom_node"
  fresh :: elem
  ElementRefStore :: refstore
  ActionRefStore :: "elem \<rightharpoonup> registration list"
  cb_calls :: "nat list"

definition body :: elem where
  "body = 0"

subsection \<open>Strings\<close>

definition is_upper :: "char \<Rightarrow> bool" where
  "is_upper c = (65 \<le> (of_char c :: nat) \<and> (of_char c :: nat) \<le> 90)"

definition is_lower :: "char \<Rightarrow> bool" where
  "is_lower c = (97 \<le> (of_char c :: nat) \<and> (of_char c :: nat) \<le> 122)"

definition lower_char :: "char \<Rightarrow> char" where
  "lower_char c = (if is_upper c then char_of ((of_char c :: nat) + 32) else c)"

definition toLowerCase :: "string \<Rightarrow> string" where
  "toLowerCase s = map lower_char s"

subsection \<open>Document operations\<close>

definition new_node :: "node_kind \<Rightarrow> string \<Rightarrow> dom_node" where
  "new_node k t =
     \<lparr>kind = k, tagName = t, attributes = Map.empty, content = NoContent, childNodes = [],
      parentNode = None, listeners = [], shadowRoot = None\<rparr>"

definition allocate :: "dom_node \<Rightarrow> state \<Rightarrow> state" where
  "allocate n s = s\<lparr>dom := (dom s)(fresh s := n), fresh := Suc (fresh s)\<rparr>"

text \<open>\<^verbatim>\<open>document.createElement(type)\<close>: \<open>None\<close> is the InvalidCharacterError. In an HTML
  document the local name is lower-cased.\<close>

definition document_createElement :: "host \<Rightarrow> string \<Rightarrow> state \<Rightarrow> elem option \<times> state" where
  "document_createElement h t s =
     (if valid_element_name h t
      then (Some (fresh s), allocate (new_node HTMLElement (toLowerCase t)) s)
      else (None, s))"

text \<open>\<^verbatim>\<open>document.createElementNS("http://www.w3.org/2000/svg", type)\<close>.\<close>

definition document_createElementNS_svg :: "host \<Rightarrow> string \<Rightarrow> state \<Rightarrow> elem option \<times> state" where
  "document_createElementNS_svg h t s =
     (if valid_qualified_name h t
      then (Some (fresh s), allocate (new_node SVGElement t) s)
      else (None, s))"

definition detach :: "elem \<Rightarrow> (elem \<Rightarrow> dom_node) \<Rightarrow> (elem \<Rightarrow> dom_node)" where
  "detach c d =
     (case parentNode (d c) of
        None \<Rightarrow> d
      | Some q \<Rightarrow>
          (let d1 = d(q := (d q)\<lparr>childNodes := removeAll c (childNodes (d q))\<rparr>)
           in d1(c := (d1 c)\<lparr>parentNode := None\<rparr>)))"

text \<open>\<^verbatim>\<open>parent.appendChild(child)\<close> for a child that is an element. The source only ever
  appends the element it has just created, so the checks of the insertion (the child
  is no ancestor of the parent) cannot fail and are left out.\<close>

definition appendChild :: "elem \<Rightarrow> elem \<Rightarrow> state \<Rightarrow> state" where
  "appendChild p c s =
     (let d1 = detach c (dom s);
          d2 = d1(c := (d1 c)\<lparr>parentNode := Some p\<rparr>)
      in s\<lparr>dom := d2(p := (d2 p)\<lparr>childNodes := childNodes (d2 p) @ [c]\<rparr>)\<rparr>)"

text \<open>\<^verbatim>\<open>element.remove()\<close>.\<close>

definition element_remove :: "elem \<Rightarrow> state \<Rightarrow> state" where
  "element_remove e s = s\<lparr>dom := detach e (dom s)\<rparr>"

definition write_attribute :: "elem \<Rightarrow> string \<Rightarrow> setter \<Rightarrow> string \<Rightarrow> state \<Rightarrow> state" where
  "write_attribute e n via v s =
     s\<lparr>dom := (dom s)(e := (dom s e)\<lparr>attributes := (attributes (dom s e))(n \<mapsto> (via, v))\<rparr>)\<rparr>"

text \<open>\<^verbatim>\<open>element.setAttribute(name, value)\<close>: \<open>None\<close> is the InvalidCharacterError. On an
  HTML element the name is lower-cased.\<close>

definition element_setAttribute :: "host \<Rightarrow> elem \<Rightarrow> string \<Rightarrow> string \<Rightarrow> state \<Rightarrow> state option" where
  "element_setAttribute h e n v s =
     (if valid_attribute_name h n
      then Some (write_attribute e
                   (if kind (dom s e) = HTMLElement then toLowerCase n else n) SetAttribute v s)
      else None)"

text \<open>\<^verbatim>\<open>element.setAttributeNS(null, name, value)\<close>: \<open>None\<close> is the error thrown for a name
  that is no qualified name of the null namespace.\<close>

definition element_setAttributeNS_null :: "host \<Rightarrow> elem \<Rightarrow> string \<Rightarrow> string \<Rightarrow> state \<Rightarrow> state option" where
  "element_setAttributeNS_null h e n v s =
     (if valid_qualified_name h n \<and> CHR '':'' \<notin> set n
      then Some (write_attribute e n SetAttributeNS v s)
      else None)"

text \<open>\<^verbatim>\<open>element.dataset[name] = value\<close> writes the attribute \<^verbatim>\<open>data-\<close> followed by the name
  with every upper-case letter replaced by a hyphen and its lower-case letter; a name
  with a hyphen before a lower-case letter is a SyntaxError.\<close>

fun hyphen_lower :: "string \<Rightarrow> bool" where
  "hyphen_lower (a # b # cs) = ((a = CHR ''-'' \<and> is_lower b) \<or> hyphen_lower (b # cs))"
| "hyphen_lower _ = False"

definition dataset_attribute :: "string \<Rightarrow> string" where
  "dataset_attribute n =
     ''data-'' @ concat (map (\<lambda>c. if is_upper c then [CHR ''-'', lower_char c] else [c]) n)"

definition dataset_set :: "host \<Rightarrow> elem \<Rightarrow> string \<Rightarrow> string \<Rightarrow> state \<Rightarrow> state option" where
  "dataset_set h e n v s =
     (if hyphen_lower n \<or> \<not> valid_attribute_name h (dataset_attribute n) then None
      else Some (write_attribute e (dataset_attribute n) Dataset v s))"

text \<open>\<^verbatim>\<open>element.dataset.state\<close>, for an element: the value of the attribute
  \<^verbatim>\<open>data-state\<close>, the empty string when there is none (undefined and the empty string
  are both falsy where the source reads it).\<close>

definition dataset_state :: "dom_node \<Rightarrow> string" where
  "dataset_state n = (case attributes n ''data-state'' of None \<Rightarrow> '''' | Some (via, v) \<Rightarrow> v)"

text \<open>\<^verbatim>\<open>addEventListener(type, handler, false)\<close> adds nothing when the same listener is
  already there; \<^verbatim>\<open>removeEventListener(type, handler, false)\<close>.\<close>

definition addEventListener :: "elem \<Rightarrow> string \<Rightarrow> handler \<Rightarrow> state \<Rightarrow> state" where
  "addEventListener e t f s =
     (if (t, f) \<in> set (listeners (dom s e)) then s
      else s\<lparr>dom := (dom s)(e := (dom s e)\<lparr>listeners := listeners (dom s e) @ [(t, f)]\<rparr>)\<rparr>)"

definition removeEventListener :: "elem \<Rightarrow> string \<Rightarrow> handler \<Rightarrow> state \<Rightarrow> state" where
  "removeEventListener e t f s =
     s\<lparr>dom := (dom s)(e := (dom s e)\<lparr>listeners := removeAll (t, f) (listeners (dom s e))\<rparr>)\<rparr>"

text \<open>\<^verbatim>\<open>element.attachShadow({mode})\<close>: \<open>None\<close> is the error thrown for a mode other than
  open and closed, for a node that cannot host a shadow tree, and for one that has a
  shadow root already.\<close>

definition attachShadow :: "host \<Rightarrow> elem \<Rightarrow> string \<Rightarrow> state \<Rightarrow> (elem \<times> state) option" where
  "attachShadow h e m s =
     (if (m = ''open'' \<or> m = ''closed'') \<and> kind (dom s e) = HTMLElement
         \<and> valid_shadow_host h (tagName (dom s e)) \<and> shadowRoot (dom s e) = None
      then (let s1 = allocate (new_node (ShadowRoot m) []) s
            in Some (fresh s, s1\<lparr>dom := (dom s1)(e := (dom s1 e)\<lparr>shadowRoot := Some (fresh s)\<rparr>)\<rparr>))
      else None)"

section \<open>DomStore (stores/domStore/main.js) and EventStore (stores/eventStore/main.js)\<close>

text \<open>
  Reading \<^verbatim>\<open>ElementRefStore[key]\<close>: an own property first; then the accessor
  \<^verbatim>\<open>__proto__\<close>, which gives the prototype; then the prototype chain, which for the
  original prototype holds the functions of \<^verbatim>\<open>Object.prototype\<close> and for an element
  is the host's. \<open>None\<close> is a TypeError thrown by a getter.
\<close>

definition object_prototype_properties :: "string list" where
  "object_prototype_properties =
     [''constructor'', ''hasOwnProperty'', ''isPrototypeOf'', ''propertyIsEnumerable'',
      ''toLocaleString'', ''toString'', ''valueOf'', ''__defineGetter__'', ''__defineSetter__'',
      ''__lookupGetter__'', ''__lookupSetter__'']"

definition get_property :: "host \<Rightarrow> state \<Rightarrow> string \<Rightarrow> jsval option" where
  "get_property h s k =
     (case own (ElementRefStore s) k of
        Some e \<Rightarrow> Some (Element e)
      | None \<Rightarrow>
          if k = ''__proto__''
          then Some (case proto (ElementRefStore s) of
                       None \<Rightarrow> Builtin ''Object.prototype'' | Some p \<Rightarrow> Element p)
          else (case proto (ElementRefStore s) of
                  None \<Rightarrow> Some (if k \<in> set object_prototype_properties then Builtin k else Undefined)
                | Some p \<Rightarrow> element_chain_get h (dom s p) k))"

text \<open>Assigning \<^verbatim>\<open>ElementRefStore[key] = element\<close>: an own property is overwritten; the
  key \<^verbatim>\<open>__proto__\<close> replaces the prototype; a key found on the chain of an element is the
  host's to decide; any other key becomes an own property. \<open>None\<close> is a TypeError.\<close>

definition set_property :: "host \<Rightarrow> state \<Rightarrow> string \<Rightarrow> elem \<Rightarrow> refstore option" where
  "set_property h s k e =
     (let R = ElementRefStore s in
      case own R k of
        Some _ \<Rightarrow> Some (R\<lparr>own := (own R)(k \<mapsto> e)\<rparr>)
      | None \<Rightarrow>
          if k = ''__proto__'' then Some (R\<lparr>proto := Some e\<rparr>)
          else (case proto R of
                  None \<Rightarrow> Some (R\<lparr>own := (own R)(k \<mapsto> e)\<rparr>)
                | Some p \<Rightarrow>
                    (case element_chain_set h (dom s p) k of
                       CreatesOwnProperty \<Rightarrow> Some (R\<lparr>own := (own R)(k \<mapsto> e)\<rparr>)
                     | ThrowsTypeError \<Rightarrow> None
                     | Ignored \<Rightarrow> Some R)))"

text \<open>\<^verbatim>\<open>addElement({key, value})\<close>; \<open>value = None\<close> is a falsy value.\<close>

definition addElement :: "host \<Rightarrow> string \<Rightarrow> elem option \<Rightarrow> state \<Rightarrow> state" where
  "addElement h key val s =
     (case val of
        None \<Rightarrow> s
      | Some e \<Rightarrow>
          if key \<noteq> []
          then (case set_property h s key e of
                  None \<Rightarrow> s
                | Some R \<Rightarrow> s\<lparr>ElementRefStore := R\<rparr>)
          else s)"

definition getElement :: "host \<Rightarrow> string \<Rightarrow> state \<Rightarrow> jsval" where
  "getElement h key s =
     (if key \<noteq> []
      then (case get_property h s key of None \<Rightarrow> Undefined | Some v \<Rightarrow> v)
      else Undefined)"

text \<open>\<^verbatim>\<open>registerEventStore({element, type, handler, nodeId})\<close>; \<open>element = None\<close> is
  undefined, an absent \<open>nodeId\<close> is the empty string.\<close>

definition registerEventStore ::
  "elem option \<Rightarrow> string \<Rightarrow> handler \<Rightarrow> string \<Rightarrow> state \<Rightarrow> state" where
  "registerEventStore element t f nodeId s =
     (case element of
        None \<Rightarrow> s
      | Some e \<Rightarrow>
          if t \<noteq> []
          then (let entries = (case ActionRefStore s e of None \<Rightarrow> [] | Some l \<Rightarrow> l);
                    schema = Registration t f (if nodeId \<noteq> [] then Some nodeId else None);
                    s1 = s\<lparr>ActionRefStore := (ActionRefStore s)(e \<mapsto> entries @ [schema])\<rparr>
                in addEventListener e t f s1)
          else s)"

text \<open>
  \<^verbatim>\<open>removeElement(key, mode)\<close>, \<^verbatim>\<open>removeEventStore(element)\<close> and
  \<^verbatim>\<open>removeFromDomStore(element)\<close> call each other: mode 1 hands the stored value to
  \<^verbatim>\<open>removeEventStore\<close>, which ends in \<^verbatim>\<open>removeFromDomStore\<close>, which calls
  \<^verbatim>\<open>removeElement\<close> with mode 2. Each has a \<^verbatim>\<open>try\<close> around its body, so an exception
  leaves the state as it is at the throw. The argument of the last two is whatever the
  store gave: an element, undefined, or a built-in value.
\<close>

function removeElement :: "host \<Rightarrow> string \<Rightarrow> nat \<Rightarrow> state \<Rightarrow> state"
  and removeEventStore :: "host \<Rightarrow> jsval \<Rightarrow> state \<Rightarrow> state"
  and removeFromDomStore :: "host \<Rightarrow> jsval \<Rightarrow> state \<Rightarrow> state"
where
  "removeElement h key m s =
     (if key \<noteq> [] \<and> m = 1
      then (case get_property h s key of
              None \<Rightarrow> s
            | Some v \<Rightarrow> removeEventStore h v s)
      else if key \<noteq> [] \<and> m = 2
      then s\<lparr>ElementRefStore :=
               (ElementRefStore s)\<lparr>own := (own (ElementRefStore s))(key := None)\<rparr>\<rparr>
      else s)"
| "removeEventStore h element s =
     removeFromDomStore h element
       (case element of
          Element e \<Rightarrow>
            (case ActionRefStore s e of
               None \<Rightarrow> s
             | Some eventList \<Rightarrow>
                 if length eventList \<ge> 1
                 then (let s1 = fold (\<lambda>item. removeEventListener e (reg_type item) (reg_handler item))
                                  (rev eventList) s
                       in s1\<lparr>ActionRefStore := (ActionRefStore s1)(e := None)\<rparr>)
                 else s)
        | _ \<Rightarrow> s)"
| "removeFromDomStore h element s =
     (case element of
        Element e \<Rightarrow>
          (case kind (dom s e) of
             ShadowRoot _ \<Rightarrow> s
           | _ \<Rightarrow>
               element_remove e
                 (if dataset_state (dom s e) \<noteq> []
                  then removeElement h (dataset_state (dom s e)) 2 s
                  else s))
      | _ \<Rightarrow> s)"
  by pat_completeness auto
termination
  by (relation "measure (\<lambda>x. case x of
         Inl (h, key, m, s) \<Rightarrow> if m = 1 then 3 else 0
       | Inr (Inl (h, v, s)) \<Rightarrow> 2
       | Inr (Inr (h, v, s)) \<Rightarrow> 1)") auto

section \<open>BuildElement (components/core/utils/createElement/buildElement.js)\<close>

text \<open>
  The \<^verbatim>\<open>element\<close> object the builders receive: \<^verbatim>\<open>{type, attr, attrNS, dataset}\<close>, the
  last three as arrays of \<^verbatim>\<open>{name, value}\<close>. A parent is undefined (\<open>Default\<close>), a live
  node, an object read as such a description, or anything else (\<open>NotObject\<close>: null or
  a primitive value). An object without \<^verbatim>\<open>type\<close> is the description of type
  \<^verbatim>\<open>undefined\<close>, the string the document's methods make of an undefined name.
\<close>

record description =
  el_type :: string
  el_attr :: "(string \<times> string) list"
  el_attrNS :: "(string \<times> string) list"
  el_dataset :: "(string \<times> string) list"

datatype parent = Default | NotObject | Live elem | Described description

record build_data =
  bd_parent :: parent
  bd_shadow :: string
  bd_element :: description

definition undefined_description :: description where
  "undefined_description = \<lparr>el_type = ''undefined'', el_attr = [], el_attrNS = [], el_dataset = []\<rparr>"

text \<open>The three setters run from the last item to the first, each item in a \<^verbatim>\<open>try\<close> of
  its own.\<close>

definition setAttrNS :: "host \<Rightarrow> elem \<Rightarrow> (string \<times> string) list \<Rightarrow> state \<Rightarrow> state" where
  "setAttrNS h element attrs s =
     fold (\<lambda>(name, v) s.
             if name \<noteq> []
             then (case element_setAttributeNS_null h element name v s of
                     None \<Rightarrow> s | Some s1 \<Rightarrow> s1)
             else s)
          (rev attrs) s"

definition setAttr :: "host \<Rightarrow> elem \<Rightarrow> (string \<times> string) list \<Rightarrow> state \<Rightarrow> state" where
  "setAttr h element attrs s =
     fold (\<lambda>(name, v) s.
             if name \<noteq> []
             then (case element_setAttribute h element name v s of
                     None \<Rightarrow> s | Some s1 \<Rightarrow> s1)
             else s)
          (rev attrs) s"

definition setData :: "host \<Rightarrow> elem \<Rightarrow> (string \<times> string) list \<Rightarrow> state \<Rightarrow> state" where
  "setData h element datasets s =
     fold (\<lambda>(name, v) s.
             if name \<noteq> []
             then (case dataset_set h element name v s of
                     None \<Rightarrow> s
                   | Some s1 \<Rightarrow>
                       if name = ''state'' then addElement h v (Some element) s1 else s1)
             else s)
          (rev datasets) s"

definition createElementNS :: "host \<Rightarrow> description \<Rightarrow> state \<Rightarrow> elem option \<times> state" where
  "createElementNS h data s =
     (case document_createElementNS_svg h (el_type data) s of
        (None, s1) \<Rightarrow> (None, s1)
      | (Some element, s1) \<Rightarrow>
          (Some element,
           setData h element (el_dataset data)
             (setAttrNS h element (el_attrNS data)
               (setAttr h element (el_attr data) s1))))"

definition buildElement :: "host \<Rightarrow> description \<Rightarrow> state \<Rightarrow> elem option \<times> state" where
  "buildElement h data s =
     (case document_createElement h (el_type data) s of
        (None, s1) \<Rightarrow> (None, s1)
      | (Some element, s1) \<Rightarrow>
          (Some element,
           setData h element (el_dataset data) (setAttr h element (el_attr data) s1)))"

text \<open>
  \<^verbatim>\<open>createHTMLElement\<close>. Every node of the model is an HTMLElement, an SVGElement or a
  ShadowRoot, so a live parent takes the first branch. Appending an undefined child,
  and appending to an undefined parent, throw; the \<^verbatim>\<open>catch\<close> returns undefined with
  the state as it is then (\<open>Inl\<close> below).
\<close>

definition createHTMLElement :: "host \<Rightarrow> build_data \<Rightarrow> state \<Rightarrow> elem option \<times> state" where
  "createHTMLElement h data s =
     (case buildElement h (bd_element data) s of (childElement, s1) \<Rightarrow>
        (case (case bd_parent data of
                 Live p \<Rightarrow>
                   (case childElement of
                      None \<Rightarrow> Inl s1
                    | Some c \<Rightarrow> Inr (c, appendChild p c s1))
               | Described pd \<Rightarrow>
                   (case buildElement h pd s1 of
                      (None, s2) \<Rightarrow> Inl s2
                    | (Some parentElement, s2) \<Rightarrow>
                        (case childElement of
                           None \<Rightarrow> Inl s2
                         | Some c \<Rightarrow> Inr (c, appendChild parentElement c s2)))
               | _ \<Rightarrow>
                   (case childElement of
                      None \<Rightarrow> Inl s1
                    | Some c \<Rightarrow> Inr (c, appendChild body c s1)))
         of
           Inl s2 \<Rightarrow> (None, s2)
         | Inr (c, s2) \<Rightarrow>
             if bd_shadow data \<noteq> [] \<and> dataset_state (dom s2 c) \<noteq> []
             then (case getElement h (dataset_state (dom s2 c)) s2 of
                     Element x \<Rightarrow>
                       (case attachShadow h x (bd_shadow data) s2 of
                          None \<Rightarrow> (None, s2)
                        | Some (root, s3) \<Rightarrow> (Some root, s3))
                   | _ \<Rightarrow> (None, s2))
             else (Some c, s2)))"

text \<open>
  \<^verbatim>\<open>createSVGElement\<close>. A live parent that is a ShadowRoot is no HTMLElement and no
  SVGElement, so it falls to the branch for objects and is read as a description.
\<close>

definition createSVGElement :: "host \<Rightarrow> build_data \<Rightarrow> state \<Rightarrow> elem option \<times> state" where
  "createSVGElement h data s =
     (case createElementNS h (bd_element data) s of (childElement, s1) \<Rightarrow>
        (let via_description = (\<lambda>pd.
               case createElementNS h pd s1 of
                 (None, s2) \<Rightarrow> (None, s2)
               | (Some parentElement, s2) \<Rightarrow>
                   (case childElement of
                      None \<Rightarrow> (None, s2)
                    | Some c \<Rightarrow> (Some c, appendChild parentElement c s2)))
         in case bd_parent data of
              Live p \<Rightarrow>
                (case kind (dom s1 p) of
                   ShadowRoot _ \<Rightarrow> via_description undefined_description
                 | _ \<Rightarrow>
                     (case childElement of
                        None \<Rightarrow> (None, s1)
                      | Some c \<Rightarrow> (Some c, appendChild p c s1)))
            | Described pd \<Rightarrow> via_description pd
            | _ \<Rightarrow> (childElement, s1)))"

section \<open>CreateElementFromStruct (components/core/utils/createElement/main.js)\<close>

text \<open>
  The structure handed to \<^verbatim>\<open>createFromStruct\<close>: a tree of objects with the fields
  \<^verbatim>\<open>element\<close>, \<^verbatim>\<open>attr\<close>, \<^verbatim>\<open>attrNS\<close>, \<^verbatim>\<open>dataset\<close>, \<^verbatim>\<open>text\<close> (\<open>text_field\<close>), \<^verbatim>\<open>html\<close>, \<^verbatim>\<open>event\<close>,
  \<^verbatim>\<open>children\<close> and \<^verbatim>\<open>shadow\<close>; \<open>Falsy\<close> is null or undefined in the place of a
  structure. \<^verbatim>\<open>children\<close> is absent (\<open>None\<close>) or an array. The three tables are lists of
  pairs in the order \<^verbatim>\<open>Object.entries\<close> gives. The source writes to the structure, so
  the functions return it as it is afterwards.

  A structure is modelled by its value, the tree the call finds. A value does not show
  whether two equal parts of it are one object, and the source reverses \<^verbatim>\<open>children\<close>
  arrays in place: where one array object occurs twice in a structure, the second visit
  finds it as the first left it. The model is of structures in which no array object
  occurs twice; the properties of whole trees carry the hypothesis \<open>unshared\<close> below,
  which no value with such an array satisfies.

  The argument \<^verbatim>\<open>data\<close> is \<^verbatim>\<open>{struct, parent}\<close>, null, or a value whose \<^verbatim>\<open>typeof\<close> is not
  \<^verbatim>\<open>"object"\<close> (a number appears with an integer value, which the function never
  reads). The callback is a function or not. Of a call of it the model keeps when it
  happened: \<open>cb_calls\<close> lists the calls in order, each with the number of nodes the
  document had then.
\<close>

record event_desc =
  action :: string
  event_type :: string
  node :: string

datatype struct =
    Falsy
  | Struct (element: string) (attr: "(string \<times> string) list") (attrNS: "(string \<times> string) list")
      (dataset: "(string \<times> string) list") (text_field: string) (html: string)
      (event: "event_desc option") (children: "struct list option") (shadow: string)

datatype primitive =
  JUndefined | JBoolean bool | JNumber int | JString string | JSymbol | JFunction

datatype data = Primitive primitive | JNull | Data struct parent

fun typeof :: "data \<Rightarrow> string" where
  "typeof (Primitive JUndefined) = ''undefined''"
| "typeof (Primitive (JBoolean b)) = ''boolean''"
| "typeof (Primitive (JNumber n)) = ''number''"
| "typeof (Primitive (JString s)) = ''string''"
| "typeof (Primitive JSymbol) = ''symbol''"
| "typeof (Primitive JFunction) = ''function''"
| "typeof JNull = ''object''"
| "typeof (Data struct parent) = ''object''"

datatype callback = NoFunction | Function

datatype result = ReturnsUndefined | ReturnsCallbackResult

definition TypeSelect :: "string \<Rightarrow> host \<Rightarrow> build_data \<Rightarrow> state \<Rightarrow> elem option \<times> state" where
  "TypeSelect t = (if t \<noteq> [] \<and> t = ''svg'' then createSVGElement else createHTMLElement)"

definition call_cb :: "state \<Rightarrow> state" where
  "call_cb s = s\<lparr>cb_calls := cb_calls s @ [fresh s]\<rparr>"

text \<open>Assigning \<^verbatim>\<open>textContent\<close> or \<^verbatim>\<open>innerHTML\<close> replaces what the node holds.\<close>

definition replace_content :: "elem \<Rightarrow> content \<Rightarrow> state \<Rightarrow> state" where
  "replace_content e c s =
     s\<lparr>dom := (\<lambda>x. if x = e then (dom s e)\<lparr>childNodes := [], content := c\<rparr>
                    else if x \<in> set (childNodes (dom s e)) then (dom s x)\<lparr>parentNode := None\<rparr>
                    else dom s x)\<rparr>"

definition createEventElement :: "host \<Rightarrow> struct \<Rightarrow> elem option \<Rightarrow> state \<Rightarrow> state" where
  "createEventElement h struct el s =
     (case event struct of
        None \<Rightarrow> s
      | Some ev \<Rightarrow>
          if action ev \<noteq> [] \<and> event_type ev \<noteq> []
          then (case EventActions h (action ev) of
                  None \<Rightarrow> s
                | Some handler \<Rightarrow> registerEventStore el (event_type ev) handler (node ev) s)
          else s)"

text \<open>
  \<^verbatim>\<open>createFromStruct\<close> does nothing for an argument whose \<^verbatim>\<open>typeof\<close> is not
  \<^verbatim>\<open>"object"\<close>; for null the destructuring throws, and for a structure without
  \<^verbatim>\<open>element\<close> it returns at once. Its \<^verbatim>\<open>try\<close> spans the whole body: assigning the content
  of an undefined element throws and ends the call.

  \<^verbatim>\<open>createChildren\<close> reverses \<^verbatim>\<open>struct.children\<close> in place and walks the reversed array
  from its last index down to 0, which \<open>createChildren_loop\<close> does as a walk of its
  reversal from the front; the item at index 0 is the one with nothing left after it.
  The array is left reversed, each item as its own call left it.
\<close>

function createFromStruct :: "host \<Rightarrow> data \<Rightarrow> callback \<Rightarrow> state \<Rightarrow> result \<times> data \<times> state"
  and createChildren ::
    "host \<Rightarrow> struct \<Rightarrow> elem option \<Rightarrow> callback \<Rightarrow> state \<Rightarrow> result \<times> struct \<times> state"
  and createChildren_loop ::
    "host \<Rightarrow> struct list \<Rightarrow> elem option \<Rightarrow> callback \<Rightarrow> state \<Rightarrow> result \<times> struct list \<times> state"
where
  "createFromStruct h (Primitive v) cb s = (ReturnsUndefined, Primitive v, s)"
| "createFromStruct h JNull cb s = (ReturnsUndefined, JNull, s)"
| "createFromStruct h (Data Falsy parent) cb s = (ReturnsUndefined, Data Falsy parent, s)"
| "createFromStruct h (Data (Struct e a an d t ht ev ch sh) parent) cb s =
     (let struct = Struct e a an d t ht ev ch sh in
      if e = [] then (ReturnsUndefined, Data struct parent, s)
      else
        (case TypeSelect (toLowerCase e) h
                \<lparr>bd_parent = (case parent of Default \<Rightarrow> Live body | _ \<Rightarrow> parent),
                 bd_shadow = sh,
                 bd_element = \<lparr>el_type = e, el_attr = a, el_attrNS = an, el_dataset = d\<rparr>\<rparr> s
         of (el, s1) \<Rightarrow>
           (case (if t \<noteq> []
                  then (case el of None \<Rightarrow> Inl s1
                        | Some x \<Rightarrow> Inr (replace_content x (TextContent t) s1))
                  else Inr s1)
            of Inl s2 \<Rightarrow> (ReturnsUndefined, Data struct parent, s2)
             | Inr s2 \<Rightarrow>
                 (case (if ht \<noteq> []
                        then (case el of None \<Rightarrow> Inl s2
                              | Some x \<Rightarrow> Inr (replace_content x (InnerHTML ht) s2))
                        else Inr s2)
                  of Inl s3 \<Rightarrow> (ReturnsUndefined, Data struct parent, s3)
                   | Inr s3 \<Rightarrow>
                       (case createChildren h struct el cb (createEventElement h struct el s3) of
                          (r, struct', s4) \<Rightarrow> (r, Data struct' parent, s4))))))"
| "createChildren h Falsy el cb s = (ReturnsUndefined, Falsy, s)"
| "createChildren h (Struct e a an d t ht ev ch sh) el cb s =
     (case ch of
        Some cs \<Rightarrow>
          (let startFromLast = rev cs in
           case createChildren_loop h (rev startFromLast) el cb s of
             (r, visited, s1) \<Rightarrow> (r, Struct e a an d t ht ev (Some (rev visited)) sh, s1))
      | None \<Rightarrow>
          (case cb of
             Function \<Rightarrow> (ReturnsCallbackResult, Struct e a an d t ht ev ch sh, call_cb s)
           | NoFunction \<Rightarrow> (ReturnsUndefined, Struct e a an d t ht ev ch sh, s)))"
| "createChildren_loop h [] el cb s = (ReturnsUndefined, [], s)"
| "createChildren_loop h (childItem # rest) el cb s =
     (case (case childItem of
              Falsy \<Rightarrow> (childItem, s)
            | _ \<Rightarrow>
                (case createFromStruct h
                        (Data childItem (case el of None \<Rightarrow> Default | Some x \<Rightarrow> Live x)) cb s
                 of (r, Data childItem' p, s1) \<Rightarrow> (childItem', s1)
                  | (r, _, s1) \<Rightarrow> (childItem, s1)))
      of (childItem', s1) \<Rightarrow>
        if rest = []
        then (case cb of
                Function \<Rightarrow> (ReturnsCallbackResult, [childItem'], call_cb s1)
              | NoFunction \<Rightarrow> (ReturnsUndefined, [childItem'], s1))
        else (case createChildren_loop h rest el cb s1 of
                (r, visited, s2) \<Rightarrow> (r, childItem' # visited, s2)))"
  by pat_completeness auto
termination
  by (relation "measure (\<lambda>x. case x of
         Inl (h, dt, cb, s) \<Rightarrow> (case dt of Data st p \<Rightarrow> 2 * size st + 2 | _ \<Rightarrow> 0)
       | Inr (Inl (h, st, el, cb, s)) \<Rightarrow> 2 * size st + 1
       | Inr (Inr (h, cs, el, cb, s)) \<Rightarrow> 2 * size_list size cs + 1)") auto

section \<open>A host, a document and descriptions to run the code on\<close>

text \<open>A host that accepts every name, lets \<^verbatim>\<open>div\<close> elements carry a shadow root and has
  the one action the demo page registers; and a document that holds the body only.\<close>

definition permissive_host :: host where
  "permissive_host =
     \<lparr>valid_element_name = (\<lambda>n. True), valid_qualified_name = (\<lambda>n. True),
      valid_attribute_name = (\<lambda>n. True), valid_shadow_host = (\<lambda>t. t = ''div''),
      element_chain_get = (\<lambda>n k. None), element_chain_set = (\<lambda>n k. ThrowsTypeError),
      EventActions = [''clickHelloWord'' \<mapsto> 0]\<rparr>"

definition empty_document :: state where
  "empty_document =
     \<lparr>dom = (\<lambda>x. new_node HTMLElement ''body''), fresh = 1,
      ElementRefStore = \<lparr>own = Map.empty, proto = None\<rparr>,
      ActionRefStore = Map.empty, cb_calls = []\<rparr>"

definition leaf :: "string \<Rightarrow> struct" where
  "leaf t = Struct t [] [] [] [] [] None None []"

definition final_state :: "'r \<times> 'd \<times> state \<Rightarrow> state" where
  "final_state r = snd (snd r)"

definition final_data :: "result \<times> data \<times> state \<Rightarrow> data" where
  "final_data r = fst (snd r)"

text \<open>\<^verbatim>\<open>{element: "div", children: [{element: "span"}]}\<close>,
  \<^verbatim>\<open>{element: "div", children: []}\<close> and
  \<^verbatim>\<open>{element: "div", children: [{element: "a"}, {element: "b"}]}\<close>.\<close>

definition div_with_span :: struct where
  "div_with_span = Struct ''div'' [] [] [] [] [] None (Some [leaf ''span'']) []"

definition div_with_no_children :: struct where
  "div_with_no_children = Struct ''div'' [] [] [] [] [] None (Some []) []"

definition div_with_a_b :: struct where
  "div_with_a_b = Struct ''div'' [] [] [] [] [] None (Some [leaf ''a'', leaf ''b'']) []"

text \<open>\<^verbatim>\<open>{element: "svg", attr: {viewBox: "0 0 10 10"}, children: [{element: "circle"}]}\<close>
  and the state after compiling it into the empty document.\<close>

definition svg_scenario :: struct where
  "svg_scenario =
     Struct ''svg'' [(''viewBox'', ''0 0 10 10'')] [] [] [] [] None (Some [leaf ''circle'']) []"

definition svg_scenario_state :: state where
  "svg_scenario_state =
     final_state (createFromStruct permissive_host (Data svg_scenario Default) NoFunction
       empty_document)"

section \<open>Notions the properties are stated with\<close>

text \<open>The first half of \<^verbatim>\<open>removeEventStore\<close>: what it does to the listeners and to the
  entry of the element before it calls \<^verbatim>\<open>removeFromDomStore\<close>.\<close>

definition forget_listeners :: "elem \<Rightarrow> state \<Rightarrow> state" where
  "forget_listeners e s =
     (case ActionRefStore s e of
        None \<Rightarrow> s
      | Some eventList \<Rightarrow>
          if length eventList \<ge> 1
          then (let s1 = fold (\<lambda>item. removeEventListener e (reg_type item) (reg_handler item))
                           (rev eventList) s
                in s1\<lparr>ActionRefStore := (ActionRefStore s1)(e := None)\<rparr>)
          else s)"

text \<open>The store holds the element under the key: as an own property or, for the key
  \<^verbatim>\<open>__proto__\<close>, as its prototype.\<close>

definition stored_under :: "refstore \<Rightarrow> string \<Rightarrow> elem \<Rightarrow> bool" where
  "stored_under R k e =
     (own R k = Some e \<or> (own R k = None \<and> k = ''__proto__'' \<and> proto R = Some e))"

text \<open>\<^verbatim>\<open>{type: "div", dataset: [{name: "state", value: ""}]}\<close> and the same with the value
  \<^verbatim>\<open>box\<close>.\<close>

definition empty_state_tag :: description where
  "empty_state_tag = \<lparr>el_type = ''div'', el_attr = [], el_attrNS = [], el_dataset = [(''state'', [])]\<rparr>"

definition box_description :: description where
  "box_description =
     \<lparr>el_type = ''div'', el_attr = [], el_attrNS = [], el_dataset = [(''state'', ''box'')]\<rparr>"

text \<open>The document after building an element with the state tag \<^verbatim>\<open>__proto__\<close>, and a
  description with the state tag \<^verbatim>\<open>id\<close>.\<close>

definition prototype_replaced :: state where
  "prototype_replaced =
     snd (buildElement permissive_host
       \<lparr>el_type = ''div'', el_attr = [], el_attrNS = [], el_dataset = [(''state'', ''__proto__'')]\<rparr>
       empty_document)"

definition id_description :: description where
  "id_description =
     \<lparr>el_type = ''div'', el_attr = [], el_attrNS = [], el_dataset = [(''state'', ''id'')]\<rparr>"

text \<open>The document after compiling \<^verbatim>\<open>{element: "div"}\<close> and then calling
  \<^verbatim>\<open>DomStore.addElement({key: "k", value: div})\<close> with the div that was built.\<close>

definition added_by_hand :: state where
  "added_by_hand =
     addElement permissive_host ''k'' (Some 1)
       (final_state (createFromStruct permissive_host (Data (leaf ''div'') Default) NoFunction
          empty_document))"

text \<open>The document after compiling
  \<^verbatim>\<open>{element: "button", dataset: {state: "box"}, event: {type: "mousedown", action: "clickHelloWord"}}\<close>.\<close>

definition button_struct :: struct where
  "button_struct =
     Struct ''button'' [] [] [(''state'', ''box'')] [] []
       (Some \<lparr>action = ''clickHelloWord'', event_type = ''mousedown'', node = []\<rparr>) None []"

definition button_state :: state where
  "button_state =
     final_state (createFromStruct permissive_host (Data button_struct Default) NoFunction
       empty_document)"

subsection \<open>The tree a description stands for\<close>

text \<open>
  \<open>nodes\<close> counts the nodes of a description. \<open>typed\<close> says that every node has an
  element type and that the host accepts it for the builder \<^verbatim>\<open>TypeSelect\<close> chooses;
  \<open>buildable\<close> says in addition that no node has an \<^verbatim>\<open>html\<close> field or asks for a
  shadow root.
\<close>

fun nodes :: "struct \<Rightarrow> nat" and nodes_list :: "struct list \<Rightarrow> nat" where
  "nodes Falsy = 0"
| "nodes (Struct e a an d t ht ev ch sh) = Suc (case ch of None \<Rightarrow> 0 | Some cs \<Rightarrow> nodes_list cs)"
| "nodes_list [] = 0"
| "nodes_list (c # cs) = nodes c + nodes_list cs"

definition is_svg :: "string \<Rightarrow> bool" where
  "is_svg e = (toLowerCase e = ''svg'')"

fun typed :: "host \<Rightarrow> struct \<Rightarrow> bool" and typed_list :: "host \<Rightarrow> struct list \<Rightarrow> bool" where
  "typed h Falsy = False"
| "typed h (Struct e a an d t ht ev ch sh) =
     (e \<noteq> [] \<and> (if is_svg e then valid_qualified_name h e else valid_element_name h e)
      \<and> (case ch of None \<Rightarrow> True | Some cs \<Rightarrow> typed_list h cs))"
| "typed_list h [] = True"
| "typed_list h (c # cs) = (typed h c \<and> typed_list h cs)"

fun buildable :: "host \<Rightarrow> struct \<Rightarrow> bool" and buildable_list :: "host \<Rightarrow> struct list \<Rightarrow> bool" where
  "buildable h Falsy = False"
| "buildable h (Struct e a an d t ht ev ch sh) =
     (e \<noteq> [] \<and> (if is_svg e then valid_qualified_name h e else valid_element_name h e)
      \<and> ht = [] \<and> sh = [] \<and> (case ch of None \<Rightarrow> True | Some cs \<Rightarrow> buildable_list h cs))"
| "buildable_list h [] = True"
| "buildable_list h (c # cs) = (buildable h c \<and> buildable_list h cs)"

text \<open>
  \<open>arrays\<close> lists the \<^verbatim>\<open>children\<close> arrays of a description, one entry for every place an
  array occurs at. \<open>unshared\<close>: no array of two or more items is listed twice. An array
  object that occurs at two places of a description is listed twice with the same
  value, so in an unshared description the only arrays that can be visited twice are
  those that reversing does not change.
\<close>

fun arrays :: "struct \<Rightarrow> struct list list" and arrays_list :: "struct list \<Rightarrow> struct list list" where
  "arrays Falsy = []"
| "arrays (Struct e a an d t ht ev ch sh) =
     (case ch of None \<Rightarrow> [] | Some cs \<Rightarrow> cs # arrays_list cs)"
| "arrays_list [] = []"
| "arrays_list (c # cs) = arrays c @ arrays_list cs"

definition unshared :: "struct \<Rightarrow> bool" where
  "unshared st = distinct (filter (\<lambda>cs. 2 \<le> length cs) (arrays st))"

text \<open>
  \<open>realised dm x p st\<close>: in the document \<open>dm\<close> the element \<open>x\<close> is the root of a tree that
  has one element for every node of \<open>st\<close>, numbered in document order from \<open>x\<close> on: \<open>x\<close> is
  of the kind and type of the root node, its parent is \<open>p\<close>, and its children are, in the
  declared order, the elements of the child descriptions, each realised under \<open>x\<close>.
\<close>

fun child_ids :: "elem \<Rightarrow> struct list \<Rightarrow> elem list" where
  "child_ids x [] = []"
| "child_ids x (c # cs) = x # child_ids (x + nodes c) cs"

fun realised :: "(elem \<Rightarrow> dom_node) \<Rightarrow> elem \<Rightarrow> elem \<Rightarrow> struct \<Rightarrow> bool"
  and realised_list :: "(elem \<Rightarrow> dom_node) \<Rightarrow> elem \<Rightarrow> elem \<Rightarrow> struct list \<Rightarrow> bool" where
  "realised dm x p Falsy = False"
| "realised dm x p (Struct e a an d t ht ev ch sh) =
     (kind (dm x) = (if is_svg e then SVGElement else HTMLElement)
      \<and> tagName (dm x) = (if is_svg e then e else toLowerCase e)
      \<and> parentNode (dm x) = Some p
      \<and> (case ch of
            None \<Rightarrow> childNodes (dm x) = []
          | Some cs \<Rightarrow> childNodes (dm x) = child_ids (Suc x) cs \<and> realised_list dm (Suc x) x cs))"
| "realised_list dm x p [] = True"
| "realised_list dm x p (c # cs) = (realised dm x p c \<and> realised_list dm (x + nodes c) p cs)"

subsection \<open>Steps of a compile call\<close>

text \<open>The content assignments of \<^verbatim>\<open>createFromStruct\<close> on an element, and the call of the
  callback when it is a function.\<close>

definition apply_content :: "elem \<Rightarrow> string \<Rightarrow> string \<Rightarrow> state \<Rightarrow> state" where
  "apply_content x t ht s =
     (let s1 = (if t \<noteq> [] then replace_content x (TextContent t) s else s)
      in if ht \<noteq> [] then replace_content x (InnerHTML ht) s1 else s1)"

definition after_callback :: "callback \<Rightarrow> state \<Rightarrow> state" where
  "after_callback cb s = (case cb of Function \<Rightarrow> call_cb s | NoFunction \<Rightarrow> s)"

text \<open>
  Relations between the state before and after a step:
  \<^item> \<open>only_attributes e\<close>: nothing but the attributes of \<open>e\<close> and the element store differ;
  \<^item> \<open>created\<close>: one element was made, without parent and children, and no other node
    was touched;
  \<^item> \<open>attached_new s p k t\<close>: one element of kind \<open>k\<close> and type \<open>t\<close> was made and appended
    to \<open>p\<close>, and no other node was touched; \<open>prepared\<close> is the same up to the listeners
    and the event entry of the new element; \<open>attached\<close> keeps what matters of it later;
  \<^item> \<open>extends s p ids\<close>: the nodes that existed are as they were, but for \<open>p\<close>, which got
    the children \<open>ids\<close> appended;
  \<^item> \<open>keeps_below n\<close>: the nodes below \<open>n\<close> keep listeners, parent, kind and type, do not
    lose children, and keep their event entries; \<open>grows\<close> says so of all nodes that
    existed, and \<open>builder_ok\<close> adds that the element returned is new and childless.
\<close>

definition only_attributes :: "elem \<Rightarrow> state \<Rightarrow> state \<Rightarrow> bool" where
  "only_attributes e s s' =
     (\<exists>A R. s' = s\<lparr>dom := (dom s)(e := (dom s e)\<lparr>attributes := A\<rparr>), ElementRefStore := R\<rparr>)"

definition created :: "state \<Rightarrow> state \<Rightarrow> bool" where
  "created s s1 =
     (fresh s1 = Suc (fresh s) \<and> (\<forall>x. x \<noteq> fresh s \<longrightarrow> dom s1 x = dom s x)
      \<and> parentNode (dom s1 (fresh s)) = None \<and> childNodes (dom s1 (fresh s)) = []
      \<and> ActionRefStore s1 = ActionRefStore s)"

definition attached_new :: "state \<Rightarrow> elem \<Rightarrow> node_kind \<Rightarrow> string \<Rightarrow> state \<Rightarrow> bool" where
  "attached_new s p k t s' =
     (fresh s' = Suc (fresh s)
      \<and> (\<forall>x. x \<noteq> fresh s \<and> x \<noteq> p \<longrightarrow> dom s' x = dom s x)
      \<and> dom s' p = (dom s p)\<lparr>childNodes := childNodes (dom s p) @ [fresh s]\<rparr>
      \<and> kind (dom s' (fresh s)) = k \<and> tagName (dom s' (fresh s)) = t
      \<and> parentNode (dom s' (fresh s)) = Some p \<and> childNodes (dom s' (fresh s)) = []
      \<and> listeners (dom s' (fresh s)) = []
      \<and> ActionRefStore s' = ActionRefStore s)"

definition prepared :: "state \<Rightarrow> elem \<Rightarrow> node_kind \<Rightarrow> string \<Rightarrow> state \<Rightarrow> bool" where
  "prepared s p k t s' =
     (fresh s' = Suc (fresh s)
      \<and> (\<forall>x. x \<noteq> fresh s \<and> x \<noteq> p \<longrightarrow> dom s' x = dom s x)
      \<and> dom s' p = (dom s p)\<lparr>childNodes := childNodes (dom s p) @ [fresh s]\<rparr>
      \<and> kind (dom s' (fresh s)) = k \<and> tagName (dom s' (fresh s)) = t
      \<and> parentNode (dom s' (fresh s)) = Some p \<and> childNodes (dom s' (fresh s)) = []
      \<and> (\<forall>x. x \<noteq> fresh s \<longrightarrow> ActionRefStore s' x = ActionRefStore s x))"

definition attached :: "state \<Rightarrow> elem \<Rightarrow> node_kind \<Rightarrow> string \<Rightarrow> state \<Rightarrow> bool" where
  "attached s p k t s' =
     (kind (dom s' (fresh s)) = k \<and> tagName (dom s' (fresh s)) = t
      \<and> parentNode (dom s' (fresh s)) = Some p \<and> fresh s \<in> set (childNodes (dom s' p))
      \<and> listeners (dom s' (fresh s)) = []
      \<and> ActionRefStore s' (fresh s) = ActionRefStore s (fresh s)
      \<and> fresh s < fresh s')"

definition extends :: "state \<Rightarrow> elem \<Rightarrow> elem list \<Rightarrow> state \<Rightarrow> bool" where
  "extends s p ids s' =
     ((\<forall>x. x < fresh s \<and> x \<noteq> p \<longrightarrow> dom s' x = dom s x)
      \<and> dom s' p = (dom s p)\<lparr>childNodes := childNodes (dom s p) @ ids\<rparr>
      \<and> (\<forall>x. x < fresh s \<longrightarrow> ActionRefStore s' x = ActionRefStore s x))"

definition keeps_below :: "nat \<Rightarrow> state \<Rightarrow> state \<Rightarrow> bool" where
  "keeps_below n s s' =
     (\<forall>x. x < n \<longrightarrow>
        listeners (dom s' x) = listeners (dom s x)
        \<and> parentNode (dom s' x) = parentNode (dom s x)
        \<and> kind (dom s' x) = kind (dom s x)
        \<and> tagName (dom s' x) = tagName (dom s x)
        \<and> set (childNodes (dom s x)) \<subseteq> set (childNodes (dom s' x))
        \<and> ActionRefStore s' x = ActionRefStore s x)"

definition grows :: "state \<Rightarrow> state \<Rightarrow> bool" where
  "grows s s' = (keeps_below (fresh s) s s' \<and> fresh s \<le> fresh s')"

definition builder_ok :: "state \<Rightarrow> elem option \<Rightarrow> state \<Rightarrow> bool" where
  "builder_ok s el s1 =
     (keeps_below (fresh s) s s1 \<and> fresh s \<le> fresh s1
      \<and> (\<forall>x. el = Some x \<longrightarrow> fresh s \<le> x \<and> x < fresh s1 \<and> childNodes (dom s1 x) = []))"

subsection \<open>More descriptions to run the code on\<close>

text \<open>The structure the demo page compiles (app/main.js), with a shorter style string.\<close>

definition demo_page :: struct where
  "demo_page =
     Struct ''div'' [(''class'', ''app-container'')] [] [] [] [] None
       (Some
         [Struct ''header'' [(''class'', ''header-container'')] [] [] ''header'' [] None None [],
          Struct ''section'' [(''class'', ''content-container'')] [] [] [] [] None
            (Some
              [Struct ''button'' [(''style'', ''margin: 0 auto;'')] [] [] ''click here to test'' []
                 (Some \<lparr>action = ''clickHelloWord'', event_type = ''mousedown'', node = []\<rparr>)
                 None []])
            [],
          Struct ''footer'' [(''class'', ''footer-container'')] [] [] ''footer'' [] None None []])
       []"

definition demo_state :: state where
  "demo_state =
     final_state (createFromStruct permissive_host (Data demo_page Default) Function
       empty_document)"

text \<open>\<^verbatim>\<open>{element: "div", dataset: {state: "box"}, shadow: "open", children: [{element: "span"}]}\<close>
  and the state after compiling it into the empty document.\<close>

definition boundary_scenario :: struct where
  "boundary_scenario =
     Struct ''div'' [] [] [(''state'', ''box'')] [] [] None (Some [leaf ''span'']) ''open''"

definition boundary_state :: state where
  "boundary_state =
     final_state (createFromStruct permissive_host (Data boundary_scenario Default) NoFunction
       empty_document)"

text \<open>The same with an \<^verbatim>\<open>svg\<close> child in the place of the \<^verbatim>\<open>span\<close>.\<close>

definition boundary_svg_scenario :: struct where
  "boundary_svg_scenario =
     Struct ''div'' [] [] [(''state'', ''box'')] [] [] None (Some [leaf ''svg'']) ''open''"

definition boundary_svg_state :: state where
  "boundary_svg_state =
     final_state (createFromStruct permissive_host (Data boundary_svg_scenario Default) NoFunction
       empty_document)"

text \<open>\<^verbatim>\<open>{element: "button", event: {type: "mousedown", action: "doesNotExist"}}\<close>
  and the state after compiling it into the empty document.\<close>

definition unresolved_scenario :: struct where
  "unresolved_scenario =
     Struct ''button'' [] [] [] [] []
       (Some \<lparr>action = ''doesNotExist'', event_type = ''mousedown'', node = []\<rparr>) None []"

definition unresolved_state :: state where
  "unresolved_state =
     final_state (createFromStruct permissive_host (Data unresolved_scenario Default) NoFunction
       empty_document)"

text \<open>\<^verbatim>\<open>{element: "svg", event: {type: "mousedown", action: "doesNotExist"}}\<close> and the state
  after compiling it into the empty document with \<^verbatim>\<open>parent: null\<close>.\<close>

definition unresolved_svg_scenario :: struct where
  "unresolved_svg_scenario =
     Struct ''svg'' [] [] [] [] []
       (Some \<lparr>action = ''doesNotExist'', event_type = ''mousedown'', node = []\<rparr>) None []"

definition unresolved_svg_state :: state where
  "unresolved_svg_state =
     final_state (createFromStruct permissive_host (Data unresolved_svg_scenario NotObject)
       NoFunction empty_document)"

section \<open>Properties\<close>

lemmas string_defs = toLowerCase_def lower_char_def is_upper_def is_lower_def dataset_attribute_def

lemmas dom_defs = new_node_def allocate_def document_createElement_def
  document_createElementNS_svg_def detach_def appendChild_def element_remove_def
  write_attribute_def element_setAttribute_def element_setAttributeNS_null_def dataset_set_def
  dataset_state_def addEventListener_def removeEventListener_def attachShadow_def body_def

lemmas store_defs = get_property_def set_property_def addElement_def getElement_def
  registerEventStore_def object_prototype_properties_def

lemmas build_defs = setAttrNS_def setAttr_def setData_def createElementNS_def buildElement_def
  createHTMLElement_def createSVGElement_def undefined_description_def TypeSelect_def call_cb_def
  replace_content_def createEventElement_def

lemmas example_defs = permissive_host_def empty_document_def leaf_def final_state_def
  final_data_def

subsection \<open>The completion callback\<close>

text \<open>
  C1. The claim: the completion callback is invoked exactly once per top-level call,
  immediately when there are no children, otherwise after the last child's subtree.
  \<^verbatim>\<open>createChildren\<close> hands the callback on to the call for every child and calls it itself
  at index 0, so it runs once for every subtree. For a \<^verbatim>\<open>div\<close> with one \<^verbatim>\<open>span\<close> it runs
  twice. For a \<^verbatim>\<open>div\<close> with the children \<^verbatim>\<open>a\<close>, \<^verbatim>\<open>b\<close> it runs three times, the first time
  when the document has three nodes (body, \<^verbatim>\<open>div\<close>, \<^verbatim>\<open>a\<close>), before \<^verbatim>\<open>b\<close> exists. With an
  empty \<^verbatim>\<open>children\<close> array the loop body never runs and the callback is never called.
\<close>

theorem createFromStruct_callback_count:
  "cb_calls (final_state (createFromStruct permissive_host (Data div_with_span Default) Function
      empty_document)) = [3, 3]
   \<and> cb_calls (final_state (createFromStruct permissive_host (Data div_with_a_b Default) Function
      empty_document)) = [3, 4, 4]
   \<and> cb_calls (final_state (createFromStruct permissive_host (Data div_with_no_children Default)
      Function empty_document)) = []"
  by (simp add: div_with_span_def div_with_a_b_def div_with_no_children_def string_defs dom_defs
      store_defs build_defs example_defs)

subsection \<open>The description after the call\<close>

text \<open>
  C2. The claim: the description is the same after the call as before it, each node's
  children sequence and its order included. \<^verbatim>\<open>struct.children.reverse()\<close> reverses the
  array in place: after compiling a \<^verbatim>\<open>div\<close> with the children \<^verbatim>\<open>a\<close>, \<^verbatim>\<open>b\<close> the description
  lists \<^verbatim>\<open>b\<close>, \<^verbatim>\<open>a\<close>.
\<close>

theorem createFromStruct_reverses_children:
  "final_data (createFromStruct permissive_host (Data div_with_a_b Default) NoFunction
      empty_document)
   = Data (Struct ''div'' [] [] [] [] [] None (Some [leaf ''b'', leaf ''a'']) []) Default"
  by (simp add: div_with_a_b_def string_defs dom_defs store_defs build_defs example_defs)

subsection \<open>The svg scenario\<close>

text \<open>
  C3, as the claim states it: compiling the svg scenario gives the \<^verbatim>\<open>svg\<close> element (node
  1) and the \<^verbatim>\<open>circle\<close> element (node 2) in the SVG namespace, and \<^verbatim>\<open>setAttribute\<close> is used
  for neither. It is false: \<^verbatim>\<open>TypeSelect\<close> sends every type but \<^verbatim>\<open>svg\<close> to
  \<^verbatim>\<open>createHTMLElement\<close>, so the circle is made by \<^verbatim>\<open>document.createElement\<close>, and the
  \<^verbatim>\<open>attr\<close> table of the svg goes through \<^verbatim>\<open>setAttr\<close>.
\<close>

theorem svg_scenario_counterexample:
  "\<not> (kind (dom svg_scenario_state 1) = SVGElement
      \<and> kind (dom svg_scenario_state 2) = SVGElement
      \<and> attributes (dom svg_scenario_state 1) ''viewBox'' \<noteq> Some (SetAttribute, ''0 0 10 10''))"
  by (simp add: svg_scenario_state_def svg_scenario_def string_defs dom_defs store_defs
      build_defs example_defs)

text \<open>
  C3, amended: on a host that accepts the three names, compiling the svg scenario under
  the body makes the \<^verbatim>\<open>svg\<close> element in the SVG namespace, attached to the body, with
  \<^verbatim>\<open>viewBox\<close> written by \<^verbatim>\<open>setAttribute\<close>; and makes the \<^verbatim>\<open>circle\<close> as an HTML element, by the
  standard builder, as the only child of the svg element.
\<close>

theorem svg_scenario_built:
  assumes "valid_qualified_name h ''svg''" and "valid_element_name h ''circle''"
    and "valid_attribute_name h ''viewBox''"
    and "0 < fresh s" and "kind (dom s body) = HTMLElement"
    and "createFromStruct h (Data svg_scenario Default) cb s = (r, d, s')"
  shows "kind (dom s' (fresh s)) = SVGElement \<and> tagName (dom s' (fresh s)) = ''svg''
     \<and> parentNode (dom s' (fresh s)) = Some body
     \<and> attributes (dom s' (fresh s)) ''viewBox'' = Some (SetAttribute, ''0 0 10 10'')
     \<and> childNodes (dom s' (fresh s)) = [Suc (fresh s)]
     \<and> kind (dom s' (Suc (fresh s))) = HTMLElement
     \<and> tagName (dom s' (Suc (fresh s))) = ''circle''
     \<and> parentNode (dom s' (Suc (fresh s))) = Some (fresh s)"
  using assms
  by (auto simp add: Let_def string_defs dom_defs store_defs build_defs leaf_def svg_scenario_def
      split: callback.splits)

theorem svg_scenario_built_witness:
  "kind (dom svg_scenario_state 1) = SVGElement \<and> tagName (dom svg_scenario_state 1) = ''svg''
     \<and> parentNode (dom svg_scenario_state 1) = Some body
     \<and> attributes (dom svg_scenario_state 1) ''viewBox'' = Some (SetAttribute, ''0 0 10 10'')
     \<and> childNodes (dom svg_scenario_state 1) = [2]
     \<and> kind (dom svg_scenario_state 2) = HTMLElement
     \<and> tagName (dom svg_scenario_state 2) = ''circle''
     \<and> parentNode (dom svg_scenario_state 2) = Some 1"
proof -
  obtain r d where run:
    "createFromStruct permissive_host (Data svg_scenario Default) NoFunction empty_document
       = (r, d, svg_scenario_state)"
    by (cases "createFromStruct permissive_host (Data svg_scenario Default) NoFunction
          empty_document") (simp add: svg_scenario_state_def final_state_def)
  have "valid_qualified_name permissive_host ''svg''"
    and "valid_element_name permissive_host ''circle''"
    and "valid_attribute_name permissive_host ''viewBox''"
    and "0 < fresh empty_document" and "kind (dom empty_document body) = HTMLElement"
    by (simp_all add: permissive_host_def empty_document_def new_node_def)
  from svg_scenario_built [OF this run] show ?thesis
    by (simp add: empty_document_def numeral_2_eq_2)
qed

subsection \<open>Arguments that are no objects\<close>

text \<open>
  C10. For an argument that is no object (\<^verbatim>\<open>typeof data\<close> is not \<^verbatim>\<open>"object"\<close>: a string, a
  number, undefined, ...), \<^verbatim>\<open>createFromStruct\<close> returns undefined and changes nothing:
  the document, \<^verbatim>\<open>ElementRefStore\<close> and \<^verbatim>\<open>ActionRefStore\<close> are as before, the argument
  is as it was, and the callback has not been called.
\<close>

theorem createFromStruct_not_an_object:
  assumes "typeof data \<noteq> ''object''"
  shows "createFromStruct h data cb s = (ReturnsUndefined, data, s)"
  using assms by (cases data) simp_all

theorem createFromStruct_not_an_object_witness:
  "typeof (Primitive (JString ''struct'')) \<noteq> ''object''
   \<and> createFromStruct permissive_host (Primitive (JString ''struct'')) Function empty_document
       = (ReturnsUndefined, Primitive (JString ''struct''), empty_document)"
proof -
  have "typeof (Primitive (JString ''struct'')) \<noteq> ''object''"
    by simp
  from this createFromStruct_not_an_object [OF this] show ?thesis
    by blast
qed

subsection \<open>Reading the element store\<close>

text \<open>
  C9. The claim: \<^verbatim>\<open>getElement(key)\<close> returns undefined whenever the key is falsy or no
  element was ever added under it. The store is a plain object, so a key that names a
  property of \<^verbatim>\<open>Object.prototype\<close> is found on the prototype chain: on a store nothing
  was ever added to, \<^verbatim>\<open>getElement("toString")\<close> returns a function.
\<close>

theorem getElement_inherited_property:
  "getElement h ''toString'' (s\<lparr>ElementRefStore := \<lparr>own = Map.empty, proto = None\<rparr>\<rparr>)
   = Builtin ''toString''"
  by (simp add: store_defs)

subsection \<open>A state tag registers the element\<close>

lemma fold_keeps:
  assumes "\<And>x s. x \<in> set xs \<Longrightarrow> g (f x s) = g s"
  shows "g (fold f xs s) = g s"
  using assms by (induction xs arbitrary: s) simp_all

lemma write_attribute_ElementRefStore [simp]:
  "ElementRefStore (write_attribute e n via v s) = ElementRefStore s"
  by (simp add: write_attribute_def)

lemma setAttr_ElementRefStore [simp]: "ElementRefStore (setAttr h e as s) = ElementRefStore s"
  unfolding setAttr_def
  by (rule fold_keeps) (auto simp add: element_setAttribute_def split: option.splits)

lemma setAttrNS_ElementRefStore [simp]: "ElementRefStore (setAttrNS h e as s) = ElementRefStore s"
  unfolding setAttrNS_def
  by (rule fold_keeps) (auto simp add: element_setAttributeNS_null_def split: option.splits)

lemma setData_append:
  "setData h e (xs @ ys) s = setData h e xs (setData h e ys s)"
  by (simp add: setData_def)

lemma setData_other_names:
  assumes "\<forall>(n, v) \<in> set ds. n \<noteq> ''state''"
  shows "ElementRefStore (setData h e ds s) = ElementRefStore s"
  unfolding setData_def
  by (rule fold_keeps) (use assms in \<open>auto simp add: dataset_set_def split: option.splits\<close>)

lemma stored_under_getElement:
  "stored_under (ElementRefStore s) k e \<Longrightarrow> k \<noteq> [] \<Longrightarrow> getElement h k s = Element e"
  by (auto simp add: stored_under_def getElement_def get_property_def)

lemma setData_state_item:
  assumes "K \<noteq> []" and "valid_attribute_name h ''data-state''" and "proto (ElementRefStore s) = None"
  shows "stored_under (ElementRefStore (setData h e [(''state'', K)] s)) K e"
  using assms
  by (auto simp add: stored_under_def setData_def dataset_set_def string_defs addElement_def
      set_property_def Let_def split: option.splits)

lemma setData_registers:
  assumes "(''state'', K) \<in> set ds" and "distinct (map fst ds)" and "K \<noteq> []"
    and "valid_attribute_name h ''data-state''" and "proto (ElementRefStore s) = None"
  shows "stored_under (ElementRefStore (setData h e ds s)) K e"
proof -
  from assms(1) obtain xs ys where ds: "ds = xs @ (''state'', K) # ys"
    by (blast dest: split_list)
  from assms(2) have "''state'' \<notin> fst ` set xs" and "''state'' \<notin> fst ` set ys"
    unfolding ds by simp_all
  then have xs: "\<forall>(n, v) \<in> set xs. n \<noteq> ''state''" and ys: "\<forall>(n, v) \<in> set ys. n \<noteq> ''state''"
    by (auto simp add: image_iff)
  let ?s1 = "setData h e ys s"
  have "proto (ElementRefStore ?s1) = None"
    by (simp add: setData_other_names [OF ys] assms(5))
  then have "stored_under (ElementRefStore (setData h e [(''state'', K)] ?s1)) K e"
    by (rule setData_state_item [OF assms(3,4)])
  moreover have "setData h e ds s = setData h e xs (setData h e [(''state'', K)] ?s1)"
    using setData_append [of h e xs "(''state'', K) # ys" s]
      setData_append [of h e "[(''state'', K)]" ys s] by (simp add: ds)
  ultimately show ?thesis
    by (simp add: setData_other_names [OF xs])
qed

text \<open>
  C5, as the claim states it: for every node description with a metadata tag \<^verbatim>\<open>state\<close> of
  value \<open>K\<close>, right after the node is built \<^verbatim>\<open>getElement(K)\<close> returns the element built.
  It is false for the empty value: \<^verbatim>\<open>addElement\<close> adds nothing under a falsy key, and
  \<^verbatim>\<open>getElement\<close> returns undefined for one.
\<close>

theorem state_tag_counterexample:
  "fst (buildElement permissive_host empty_state_tag empty_document) = Some 1
   \<and> getElement permissive_host [] (snd (buildElement permissive_host empty_state_tag
        empty_document)) \<noteq> Element 1"
  by (simp add: empty_state_tag_def string_defs dom_defs store_defs build_defs example_defs)

text \<open>
  C5, amended: for every node description with a metadata tag \<^verbatim>\<open>state\<close> of a non-empty
  value \<open>K\<close>, right after the node is built, by \<^verbatim>\<open>buildElement\<close> or by \<^verbatim>\<open>createElementNS\<close>,
  \<^verbatim>\<open>getElement(K)\<close> returns the element built. The tags are the entries of an object, so
  their names are distinct; the host accepts the attribute name \<^verbatim>\<open>data-state\<close>; and the
  store still has the prototype it was created with.
\<close>

theorem state_tag_registers_element:
  assumes "buildElement h d s = (Some e, s') \<or> createElementNS h d s = (Some e, s')"
    and "(''state'', K) \<in> set (el_dataset d)" and "distinct (map fst (el_dataset d))"
    and "K \<noteq> []" and "valid_attribute_name h ''data-state''"
    and "proto (ElementRefStore s) = None"
  shows "getElement h K s' = Element e"
proof -
  have "\<exists>s1. s' = setData h e (el_dataset d) s1 \<and> ElementRefStore s1 = ElementRefStore s"
    using assms(1)
  proof
    assume "buildElement h d s = (Some e, s')"
    then have "s' = setData h e (el_dataset d)
        (setAttr h e (el_attr d) (allocate (new_node HTMLElement (toLowerCase (el_type d))) s))"
      by (auto simp add: buildElement_def document_createElement_def split: if_splits)
    then show ?thesis
      by (intro exI conjI) (assumption, simp add: allocate_def)
  next
    assume "createElementNS h d s = (Some e, s')"
    then have "s' = setData h e (el_dataset d)
        (setAttrNS h e (el_attrNS d) (setAttr h e (el_attr d)
          (allocate (new_node SVGElement (el_type d)) s)))"
      by (auto simp add: createElementNS_def document_createElementNS_svg_def split: if_splits)
    then show ?thesis
      by (intro exI conjI) (assumption, simp add: allocate_def)
  qed
  then obtain s1 where s': "s' = setData h e (el_dataset d) s1"
    and s1: "ElementRefStore s1 = ElementRefStore s"
    by blast
  have "stored_under (ElementRefStore s') K e"
    unfolding s' by (rule setData_registers [OF assms(2-5)]) (simp add: s1 assms(6))
  then show ?thesis
    by (rule stored_under_getElement) (rule assms(4))
qed


theorem state_tag_registers_element_witness:
  "getElement permissive_host ''box'' (snd (buildElement permissive_host box_description
     empty_document)) = Element 1"
proof -
  have built: "buildElement permissive_host box_description empty_document
      = (Some 1, snd (buildElement permissive_host box_description empty_document))
    \<or> createElementNS permissive_host box_description empty_document
      = (Some 1, snd (buildElement permissive_host box_description empty_document))"
    by (simp add: box_description_def buildElement_def document_createElement_def
        permissive_host_def empty_document_def)
  show ?thesis
    by (rule state_tag_registers_element [OF built])
      (simp_all add: box_description_def permissive_host_def empty_document_def)
qed

text \<open>
  The hypothesis on the prototype is needed. Once an element was registered under the
  key \<^verbatim>\<open>__proto__\<close>, the store inherits from that element, and assigning a key that is
  an accessor of elements, such as \<^verbatim>\<open>id\<close>, calls the accessor with the store as receiver,
  which throws: \<^verbatim>\<open>addElement\<close> catches the error and adds nothing (the example host
  treats every key so).
\<close>

lemma state_tag_after_prototype_replaced:
  "proto (ElementRefStore prototype_replaced) = Some 1
   \<and> fst (buildElement permissive_host id_description prototype_replaced) = Some 2
   \<and> getElement permissive_host ''id''
        (snd (buildElement permissive_host id_description prototype_replaced)) = Undefined"
  by (simp add: prototype_replaced_def id_description_def string_defs dom_defs store_defs
      build_defs example_defs)

text \<open>
  A state tag with the empty value registers nothing: \<^verbatim>\<open>addElement\<close> does nothing for a
  falsy key, so the store is after the build as it was before, and \<^verbatim>\<open>getElement\<close>
  returns undefined for the empty key.
\<close>

lemma setData_empty_state:
  assumes "(''state'', []) \<in> set ds" and "distinct (map fst ds)"
  shows "ElementRefStore (setData h e ds s) = ElementRefStore s"
  unfolding setData_def
proof (rule fold_keeps)
  fix x s1
  assume "x \<in> set (rev ds)"
  then have x: "(fst x, snd x) \<in> set ds" by simp
  have "snd x = []" if "fst x = ''state''"
    using eq_key_imp_eq_value [OF assms(2) x [unfolded that] assms(1)] .
  then show "ElementRefStore
      ((\<lambda>(name, v) s.
           if name \<noteq> []
           then (case dataset_set h e name v s of
                   None \<Rightarrow> s
                 | Some s1 \<Rightarrow>
                     if name = ''state'' then addElement h v (Some e) s1 else s1)
           else s) x s1) = ElementRefStore s1"
    by (cases x) (auto simp add: dataset_set_def addElement_def split: option.splits)
qed

lemma state_tag_empty_registers_nothing:
  assumes "buildElement h d s = (Some e, s') \<or> createElementNS h d s = (Some e, s')"
    and "(''state'', []) \<in> set (el_dataset d)" and "distinct (map fst (el_dataset d))"
  shows "ElementRefStore s' = ElementRefStore s \<and> getElement h [] s' = Undefined"
proof -
  have "\<exists>s1. s' = setData h e (el_dataset d) s1 \<and> ElementRefStore s1 = ElementRefStore s"
    using assms(1)
  proof
    assume "buildElement h d s = (Some e, s')"
    then have "s' = setData h e (el_dataset d)
        (setAttr h e (el_attr d) (allocate (new_node HTMLElement (toLowerCase (el_type d))) s))"
      by (auto simp add: buildElement_def document_createElement_def split: if_splits)
    then show ?thesis
      by (intro exI conjI) (assumption, simp add: allocate_def)
  next
    assume "createElementNS h d s = (Some e, s')"
    then have "s' = setData h e (el_dataset d)
        (setAttrNS h e (el_attrNS d) (setAttr h e (el_attr d)
          (allocate (new_node SVGElement (el_type d)) s)))"
      by (auto simp add: createElementNS_def document_createElementNS_svg_def split: if_splits)
    then show ?thesis
      by (intro exI conjI) (assumption, simp add: allocate_def)
  qed
  then obtain s1 where s': "s' = setData h e (el_dataset d) s1"
    and s1: "ElementRefStore s1 = ElementRefStore s"
    by blast
  show ?thesis
    by (simp add: s' s1 setData_empty_state [OF assms(2,3)] getElement_def)
qed

subsection \<open>Removing listeners and elements\<close>

lemma removeEventListener_listeners:
  "removeEventListener e t f (s\<lparr>dom := (dom s)(e := (dom s e)\<lparr>listeners := L\<rparr>)\<rparr>)
   = s\<lparr>dom := (dom s)(e := (dom s e)\<lparr>listeners := removeAll (t, f) L\<rparr>)\<rparr>"
  by (simp add: removeEventListener_def)

lemma fold_removeEventListener_listeners:
  "fold (\<lambda>item. removeEventListener e (reg_type item) (reg_handler item)) items
     (s\<lparr>dom := (dom s)(e := (dom s e)\<lparr>listeners := L\<rparr>)\<rparr>)
   = s\<lparr>dom := (dom s)(e := (dom s e)\<lparr>listeners :=
        fold (\<lambda>item. removeAll (reg_type item, reg_handler item)) items L\<rparr>)\<rparr>"
  by (induction items arbitrary: L) (simp_all only: fold_simps id_apply o_apply removeEventListener_listeners)

lemma fold_removeEventListener:
  "fold (\<lambda>item. removeEventListener e (reg_type item) (reg_handler item)) items s
   = s\<lparr>dom := (dom s)(e := (dom s e)\<lparr>listeners :=
        fold (\<lambda>item. removeAll (reg_type item, reg_handler item)) items (listeners (dom s e))\<rparr>)\<rparr>"
  using fold_removeEventListener_listeners [of e items s "listeners (dom s e)"] by simp

lemma detach_parentNode [simp]: "parentNode (detach c d c) = None"
  by (simp add: detach_def Let_def split: option.splits)

lemma detach_idem [simp]: "detach c (detach c d) = detach c d"
proof -
  have "parentNode (detach c d c) = None" by simp
  then show ?thesis by (simp add: detach_def [of c "detach c d"])
qed

lemma detach_kind [simp]: "kind (detach c d x) = kind (d x)"
  by (simp add: detach_def Let_def split: option.splits)

lemma detach_attributes [simp]: "attributes (detach c d x) = attributes (d x)"
  by (simp add: detach_def Let_def split: option.splits)

lemma detach_listeners [simp]: "listeners (detach c d x) = listeners (d x)"
  by (simp add: detach_def Let_def split: option.splits)

lemma dataset_state_detach [simp]: "dataset_state (detach c d x) = dataset_state (d x)"
  by (simp add: dataset_state_def)

lemma removeEventStore_Element:
  "removeEventStore h (Element e) s = removeFromDomStore h (Element e) (forget_listeners e s)"
  by (simp add: forget_listeners_def)

lemma removeEventStore_no_element:
  "removeEventStore h Undefined s = s" "removeEventStore h (Builtin b) s = s"
  by simp_all

lemma forget_listeners_entry:
  "ActionRefStore (forget_listeners e s) e = None \<or> ActionRefStore (forget_listeners e s) e = Some []"
  by (cases "ActionRefStore s e") (auto simp add: forget_listeners_def fold_removeEventListener Suc_le_eq)

lemma forget_listeners_done:
  "ActionRefStore s e = None \<or> ActionRefStore s e = Some [] \<Longrightarrow> forget_listeners e s = s"
  by (auto simp add: forget_listeners_def)

lemma removeFromDomStore_Element:
  "removeFromDomStore h (Element e) s =
     (if is_ShadowRoot (kind (dom s e)) then s
      else element_remove e
             (if dataset_state (dom s e) \<noteq> []
              then s\<lparr>ElementRefStore := (ElementRefStore s)
                       \<lparr>own := (own (ElementRefStore s))(dataset_state (dom s e) := None)\<rparr>\<rparr>
              else s))"
  by (cases "kind (dom s e)") simp_all

lemma removeFromDomStore_no_element:
  "removeFromDomStore h Undefined s = s" "removeFromDomStore h (Builtin b) s = s"
  by simp_all

lemma removeFromDomStore_ActionRefStore:
  "ActionRefStore (removeFromDomStore h v s) = ActionRefStore s"
  by (cases v) (simp_all add: removeFromDomStore_Element removeFromDomStore_no_element element_remove_def
      del: removeFromDomStore.simps)

lemma removeFromDomStore_idem:
  "removeFromDomStore h v (removeFromDomStore h v s) = removeFromDomStore h v s"
  by (cases v) (simp_all add: removeFromDomStore_Element removeFromDomStore_no_element element_remove_def
      del: removeFromDomStore.simps)

text \<open>
  C7. \<^verbatim>\<open>removeEventStore\<close> (the spec's unregisterAll) is idempotent: a second call on the
  same value, an element or not, leaves the document and both stores as the first call
  left them. Every function on the way has its own \<^verbatim>\<open>try\<close>, so nothing is thrown.
\<close>

theorem removeEventStore_idempotent:
  "removeEventStore h v (removeEventStore h v s) = removeEventStore h v s"
proof (cases v)
  case (Element e)
  let ?s1 = "forget_listeners e s"
  let ?s2 = "removeFromDomStore h (Element e) ?s1"
  have "ActionRefStore ?s2 e = None \<or> ActionRefStore ?s2 e = Some []"
    by (simp only: removeFromDomStore_ActionRefStore forget_listeners_entry)
  then have "forget_listeners e ?s2 = ?s2"
    by (rule forget_listeners_done)
  then show ?thesis
    by (simp only: Element removeEventStore_Element removeFromDomStore_idem)
qed (simp_all only: removeEventStore_no_element)


subsection \<open>The two modes of removeElement\<close>

lemma fold_removeAll_gone:
  "item \<in> set items \<Longrightarrow>
   (reg_type item, reg_handler item)
     \<notin> set (fold (\<lambda>item. removeAll (reg_type item, reg_handler item)) items L)"
proof (induction items arbitrary: L)
  case Nil
  then show ?case by simp
next
  case (Cons a items)
  have sub: "set (fold (\<lambda>item. removeAll (reg_type item, reg_handler item)) items M) \<subseteq> set M" for M
    by (induction items arbitrary: M) (simp, force)
  show ?case
  proof (cases "item = a")
    case True
    then show ?thesis using sub [of "removeAll (reg_type a, reg_handler a) L"] by auto
  next
    case False
    with Cons.prems have "item \<in> set items" by simp
    then show ?thesis by (simp add: Cons.IH)
  qed
qed

lemma forget_listeners_dom:
  "\<exists>L. dom (forget_listeners e s) = (dom s)(e := (dom s e)\<lparr>listeners := L\<rparr>)"
proof (cases "ActionRefStore s e")
  case None
  then have "dom (forget_listeners e s) = (dom s)(e := (dom s e)\<lparr>listeners := listeners (dom s e)\<rparr>)"
    by (simp add: forget_listeners_def)
  then show ?thesis ..
next
  case (Some eventList)
  show ?thesis
  proof (cases "1 \<le> length eventList")
    case True
    with Some have "dom (forget_listeners e s) = (dom s)(e := (dom s e)\<lparr>listeners :=
        fold (\<lambda>item. removeAll (reg_type item, reg_handler item)) (rev eventList)
          (listeners (dom s e))\<rparr>)"
      by (simp add: forget_listeners_def fold_removeEventListener)
    then show ?thesis ..
  next
    case False
    with Some have "dom (forget_listeners e s) = (dom s)(e := (dom s e)\<lparr>listeners := listeners (dom s e)\<rparr>)"
      by (simp add: forget_listeners_def)
    then show ?thesis ..
  qed
qed

lemma forget_listeners_fields [simp]:
  "kind (dom (forget_listeners e s) x) = kind (dom s x)"
  "attributes (dom (forget_listeners e s) x) = attributes (dom s x)"
  "parentNode (dom (forget_listeners e s) x) = parentNode (dom s x)"
  "childNodes (dom (forget_listeners e s) x) = childNodes (dom s x)"
  using forget_listeners_dom [of e s] by auto

lemma forget_listeners_ElementRefStore [simp]:
  "ElementRefStore (forget_listeners e s) = ElementRefStore s"
  by (cases "ActionRefStore s e") (simp_all add: forget_listeners_def fold_removeEventListener)

lemma forget_listeners_gone:
  assumes "ActionRefStore s e = Some eventList" and "item \<in> set eventList"
  shows "(reg_type item, reg_handler item) \<notin> set (listeners (dom (forget_listeners e s) e))"
proof -
  from assms have "item \<in> set (rev eventList)" and "1 \<le> length eventList"
    by (simp, cases eventList) simp_all
  then show ?thesis
    using assms(1) fold_removeAll_gone [of item "rev eventList" "listeners (dom s e)"]
    by (simp add: forget_listeners_def fold_removeEventListener)
qed

lemma forget_listeners_deleted:
  "ActionRefStore s e \<noteq> Some [] \<Longrightarrow> ActionRefStore (forget_listeners e s) e = None"
  by (cases "ActionRefStore s e") (auto simp add: forget_listeners_def fold_removeEventListener Suc_le_eq)

lemma detach_not_child:
  "parentNode (d c) = Some q \<Longrightarrow> c \<notin> set (childNodes (detach c d q))"
  by (simp add: detach_def Let_def)

lemma removeElement_reference_only:
  "K \<noteq> [] \<Longrightarrow> removeElement h K 2 s =
     s\<lparr>ElementRefStore := (ElementRefStore s)\<lparr>own := (own (ElementRefStore s))(K := None)\<rparr>\<rparr>"
  by simp

lemma removeElement_full:
  assumes "own (ElementRefStore s) K = Some e" and "K \<noteq> []"
  shows "removeElement h K 1 s = removeFromDomStore h (Element e) (forget_listeners e s)"
  using assms by (simp add: get_property_def forget_listeners_def)

text \<open>
  What the two modes do to an element stored under a non-empty key \<open>K\<close>:
  \<^verbatim>\<open>removeElement(K, 2)\<close> deletes the mapping of \<open>K\<close> and changes nothing else;
  \<^verbatim>\<open>removeElement(K, 1)\<close> leaves the element without a parent and out of its former
  parent's children, removes every listener registered for it in \<^verbatim>\<open>ActionRefStore\<close>,
  deletes that entry, and deletes the mapping of the key in the \<^verbatim>\<open>data-state\<close> attribute
  of the element, so that the mapping of \<open>K\<close> is deleted exactly when that attribute
  is \<open>K\<close>.
\<close>

lemma removeElement_modes:
  assumes "own (ElementRefStore s) K = Some e" and "K \<noteq> []"
    and "\<not> is_ShadowRoot (kind (dom s e))"
  shows "removeElement h K 2 s =
           s\<lparr>ElementRefStore := (ElementRefStore s)\<lparr>own := (own (ElementRefStore s))(K := None)\<rparr>\<rparr>
    \<and> parentNode (dom (removeElement h K 1 s) e) = None
    \<and> (\<forall>q. parentNode (dom s e) = Some q \<longrightarrow>
           e \<notin> set (childNodes (dom (removeElement h K 1 s) q)))
    \<and> (\<forall>eventList. ActionRefStore s e = Some eventList \<longrightarrow>
           (\<forall>item \<in> set eventList.
              (reg_type item, reg_handler item)
                \<notin> set (listeners (dom (removeElement h K 1 s) e))))
    \<and> (ActionRefStore s e \<noteq> Some [] \<longrightarrow> ActionRefStore (removeElement h K 1 s) e = None)
    \<and> own (ElementRefStore (removeElement h K 1 s)) =
           (if dataset_state (dom s e) \<noteq> []
            then (own (ElementRefStore s))(dataset_state (dom s e) := None)
            else own (ElementRefStore s))
    \<and> own (ElementRefStore (removeElement h K 1 s)) K =
           (if dataset_state (dom s e) = K then None else Some e)"
proof (intro conjI)
  let ?s1 = "forget_listeners e s"
  have full: "removeElement h K 1 s = removeFromDomStore h (Element e) ?s1"
    by (rule removeElement_full [OF assms(1,2)])
  have kind1: "kind (dom ?s1 e) = kind (dom s e)"
    and data1: "dataset_state (dom ?s1 e) = dataset_state (dom s e)"
    and parent1: "parentNode (dom ?s1 e) = parentNode (dom s e)"
    by (simp_all add: dataset_state_def)
  have dom2: "dom (removeFromDomStore h (Element e) ?s1) = detach e (dom ?s1)"
    using assms(3) by (simp add: removeFromDomStore_Element kind1 element_remove_def
        del: removeFromDomStore.simps)
  show "removeElement h K 2 s =
      s\<lparr>ElementRefStore := (ElementRefStore s)\<lparr>own := (own (ElementRefStore s))(K := None)\<rparr>\<rparr>"
    using assms(2) by simp
  show "parentNode (dom (removeElement h K 1 s) e) = None"
    by (simp only: full dom2 detach_parentNode)
  show "\<forall>q. parentNode (dom s e) = Some q \<longrightarrow> e \<notin> set (childNodes (dom (removeElement h K 1 s) q))"
    by (simp only: full dom2) (simp add: detach_not_child parent1)
  show "\<forall>eventList. ActionRefStore s e = Some eventList \<longrightarrow>
      (\<forall>item \<in> set eventList.
         (reg_type item, reg_handler item) \<notin> set (listeners (dom (removeElement h K 1 s) e)))"
    by (simp only: full dom2 detach_listeners) (blast dest: forget_listeners_gone)
  show "ActionRefStore s e \<noteq> Some [] \<longrightarrow> ActionRefStore (removeElement h K 1 s) e = None"
    by (simp only: full removeFromDomStore_ActionRefStore) (simp add: forget_listeners_deleted)
  show "own (ElementRefStore (removeElement h K 1 s)) =
      (if dataset_state (dom s e) \<noteq> []
       then (own (ElementRefStore s))(dataset_state (dom s e) := None)
       else own (ElementRefStore s))"
    using assms(3)
    by (simp only: full)
      (simp add: removeFromDomStore_Element kind1 data1 element_remove_def
        del: removeFromDomStore.simps)
  show "own (ElementRefStore (removeElement h K 1 s)) K =
      (if dataset_state (dom s e) = K then None else Some e)"
    using assms(1,2,3)
    by (simp only: full)
      (simp add: removeFromDomStore_Element kind1 data1 element_remove_def
        del: removeFromDomStore.simps)
qed

text \<open>For the button the builder registered under its state tag \<^verbatim>\<open>box\<close> both modes do
  what their names say.\<close>

lemma removeElement_modes_button:
  "own (ElementRefStore (removeElement permissive_host ''box'' 2 button_state)) ''box'' = None
   \<and> dom (removeElement permissive_host ''box'' 2 button_state) = dom button_state
   \<and> parentNode (dom button_state 1) = Some body
   \<and> parentNode (dom (removeElement permissive_host ''box'' 1 button_state) 1) = None
   \<and> 1 \<notin> set (childNodes (dom (removeElement permissive_host ''box'' 1 button_state) body))
   \<and> (''mousedown'', 0) \<in> set (listeners (dom button_state 1))
   \<and> (''mousedown'', 0)
        \<notin> set (listeners (dom (removeElement permissive_host ''box'' 1 button_state) 1))
   \<and> ActionRefStore (removeElement permissive_host ''box'' 1 button_state) 1 = None
   \<and> own (ElementRefStore (removeElement permissive_host ''box'' 1 button_state)) ''box'' = None"
proof -
  have facts: "dom button_state 1 =
      \<lparr>kind = HTMLElement, tagName = ''button'',
       attributes = [''data-state'' \<mapsto> (Dataset, ''box'')], content = NoContent,
       childNodes = [], parentNode = Some body, listeners = [(''mousedown'', 0)],
       shadowRoot = None\<rparr>"
    "own (ElementRefStore button_state) = [''box'' \<mapsto> 1]"
    "ActionRefStore button_state = [1 \<mapsto> [Registration ''mousedown'' 0 None]]"
    by (simp_all add: button_state_def button_struct_def string_defs dom_defs store_defs
        build_defs example_defs)
  have mapped: "own (ElementRefStore button_state) ''box'' = Some 1"
    and key: "''box'' \<noteq> []"
    and element: "\<not> is_ShadowRoot (kind (dom button_state 1))"
    using facts by simp_all
  from removeElement_modes [OF mapped key element, of permissive_host] facts
  show ?thesis
    by (simp add: dataset_state_def)
qed

text \<open>
  C6. The claim: for every key \<open>K\<close> mapped in the store, \<^verbatim>\<open>removeElement(K, 2)\<close>
  (reference-only) deletes the mapping of \<open>K\<close> and leaves the element as it is, and
  \<^verbatim>\<open>removeElement(K, 1)\<close> (full) detaches the listeners of the element, removes it from
  its parent and deletes the mapping of \<open>K\<close>. Mode 1 does not delete the key it is called
  with: it hands the stored element to \<^verbatim>\<open>removeEventStore\<close>, whose
  \<^verbatim>\<open>removeFromDomStore\<close> deletes the key it reads from the \<^verbatim>\<open>data-state\<close> attribute of the
  element. For an element stored under a key that is not its state tag, mode 1
  therefore takes the element out of the document and leaves \<open>K\<close> mapped to it; what
  it deletes is the mapping of the tag, when the element has one. Mode 2 on the same
  key deletes the mapping. The docstring of \<^verbatim>\<open>removeElement\<close> says of both modes that
  they remove the element from \<^verbatim>\<open>ElementRefStore\<close>.
\<close>

theorem removeElement_full_keeps_mapping:
  assumes "own (ElementRefStore s) K = Some e" and "K \<noteq> []"
    and "\<not> is_ShadowRoot (kind (dom s e))"
    and "dataset_state (dom s e) \<noteq> K"
  shows "own (ElementRefStore (removeElement h K 1 s)) K = Some e
    \<and> parentNode (dom (removeElement h K 1 s) e) = None
    \<and> own (ElementRefStore (removeElement h K 1 s)) =
         (if dataset_state (dom s e) \<noteq> []
          then (own (ElementRefStore s))(dataset_state (dom s e) := None)
          else own (ElementRefStore s))
    \<and> own (ElementRefStore (removeElement h K 2 s)) K = None"
proof -
  let ?s1 = "forget_listeners e s"
  have full: "removeElement h K 1 s = removeFromDomStore h (Element e) ?s1"
    by (rule removeElement_full [OF assms(1,2)])
  have kind1: "kind (dom ?s1 e) = kind (dom s e)"
    and data1: "dataset_state (dom ?s1 e) = dataset_state (dom s e)"
    by (simp_all add: dataset_state_def)
  have dom2: "dom (removeFromDomStore h (Element e) ?s1) = detach e (dom ?s1)"
    using assms(3) by (simp add: removeFromDomStore_Element kind1 element_remove_def
        del: removeFromDomStore.simps)
  have store: "own (ElementRefStore (removeElement h K 1 s)) =
      (if dataset_state (dom s e) \<noteq> []
       then (own (ElementRefStore s))(dataset_state (dom s e) := None)
       else own (ElementRefStore s))"
    using assms(3)
    by (simp only: full)
      (simp add: removeFromDomStore_Element kind1 data1 element_remove_def
        del: removeFromDomStore.simps)
  have "own (ElementRefStore (removeElement h K 1 s)) K = Some e"
    unfolding store using assms(1,4) by simp
  moreover have "parentNode (dom (removeElement h K 1 s) e) = None"
    by (simp only: full dom2 detach_parentNode)
  moreover have "own (ElementRefStore (removeElement h K 2 s)) K = None"
    using assms(2) by simp
  ultimately show ?thesis
    using store by blast
qed

theorem removeElement_full_keeps_mapping_witness:
  "own (ElementRefStore added_by_hand) ''k'' = Some 1
   \<and> parentNode (dom added_by_hand 1) = Some body
   \<and> own (ElementRefStore (removeElement permissive_host ''k'' 1 added_by_hand)) ''k'' = Some 1
   \<and> parentNode (dom (removeElement permissive_host ''k'' 1 added_by_hand) 1) = None
   \<and> own (ElementRefStore (removeElement permissive_host ''k'' 2 added_by_hand)) ''k'' = None"
proof -
  have facts: "dom added_by_hand 1 = (new_node HTMLElement ''div'')\<lparr>parentNode := Some body\<rparr>"
    "own (ElementRefStore added_by_hand) = [''k'' \<mapsto> 1]"
    by (simp_all add: added_by_hand_def string_defs dom_defs store_defs build_defs example_defs)
  have mapped: "own (ElementRefStore added_by_hand) ''k'' = Some 1"
    and key: "''k'' \<noteq> []"
    and element: "\<not> is_ShadowRoot (kind (dom added_by_hand 1))"
    and tag: "dataset_state (dom added_by_hand 1) \<noteq> ''k''"
    using facts by (simp_all add: new_node_def dataset_state_def)
  from removeElement_full_keeps_mapping [OF mapped key element tag, of permissive_host]
  have "own (ElementRefStore (removeElement permissive_host ''k'' 1 added_by_hand)) ''k'' = Some 1"
    and "parentNode (dom (removeElement permissive_host ''k'' 1 added_by_hand) 1) = None"
    and "own (ElementRefStore (removeElement permissive_host ''k'' 2 added_by_hand)) ''k'' = None"
    by blast+
  with facts show ?thesis
    by (simp add: new_node_def del: removeElement.simps)
qed

subsection \<open>What a compile call does to the document\<close>

lemma only_attributes_refl: "only_attributes e s s"
proof -
  have "s = s\<lparr>dom := (dom s)(e := (dom s e)\<lparr>attributes := attributes (dom s e)\<rparr>),
               ElementRefStore := ElementRefStore s\<rparr>"
    by simp
  then show ?thesis unfolding only_attributes_def by blast
qed

lemma only_attributes_trans:
  assumes "only_attributes e s s1" and "only_attributes e s1 s2"
  shows "only_attributes e s s2"
proof -
  from assms(1) obtain A R where s1: "s1 = s\<lparr>dom := (dom s)(e := (dom s e)\<lparr>attributes := A\<rparr>), ElementRefStore := R\<rparr>"
    unfolding only_attributes_def by blast
  from assms(2) obtain A' R' where s2: "s2 = s1\<lparr>dom := (dom s1)(e := (dom s1 e)\<lparr>attributes := A'\<rparr>), ElementRefStore := R'\<rparr>"
    unfolding only_attributes_def by blast
  have "s2 = s\<lparr>dom := (dom s)(e := (dom s e)\<lparr>attributes := A'\<rparr>), ElementRefStore := R'\<rparr>"
    by (simp add: s1 s2)
  then show ?thesis unfolding only_attributes_def by blast
qed

lemma only_attributes_fold:
  assumes "\<And>x s. only_attributes e s (f x s)"
  shows "only_attributes e s (fold f xs s)"
proof (induction xs arbitrary: s)
  case Nil
  show ?case by (simp add: only_attributes_refl)
next
  case (Cons x xs)
  have "only_attributes e (f x s) (fold f xs (f x s))" by (rule Cons.IH)
  with assms [of s x] show ?case
    by (simp add: only_attributes_trans)
qed

lemma only_attributes_write: "only_attributes e s (write_attribute e n via v s)"
proof -
  have "write_attribute e n via v s =
      s\<lparr>dom := (dom s)(e := (dom s e)\<lparr>attributes := (attributes (dom s e))(n \<mapsto> (via, v))\<rparr>),
        ElementRefStore := ElementRefStore s\<rparr>"
    by (simp add: write_attribute_def)
  then show ?thesis unfolding only_attributes_def by blast
qed

lemma only_attributes_store: "only_attributes e s (s\<lparr>ElementRefStore := R\<rparr>)"
proof -
  have "s\<lparr>ElementRefStore := R\<rparr> =
      s\<lparr>dom := (dom s)(e := (dom s e)\<lparr>attributes := attributes (dom s e)\<rparr>), ElementRefStore := R\<rparr>"
    by simp
  then show ?thesis unfolding only_attributes_def by blast
qed

lemma only_attributes_addElement: "only_attributes e s (addElement h k v s)"
  by (simp add: addElement_def only_attributes_refl only_attributes_store split: option.splits)

lemma only_attributes_setAttr: "only_attributes e s (setAttr h e as s)"
  unfolding setAttr_def
  by (rule only_attributes_fold)
    (auto simp add: element_setAttribute_def only_attributes_refl only_attributes_write
      split: option.splits)

lemma only_attributes_setAttrNS: "only_attributes e s (setAttrNS h e as s)"
  unfolding setAttrNS_def
  by (rule only_attributes_fold)
    (auto simp add: element_setAttributeNS_null_def only_attributes_refl only_attributes_write
      split: option.splits)

lemma only_attributes_setData: "only_attributes e s (setData h e ds s)"
  unfolding setData_def
  by (rule only_attributes_fold)
    (auto simp add: dataset_set_def only_attributes_refl only_attributes_write
      intro: only_attributes_trans [OF only_attributes_write only_attributes_addElement]
      split: option.splits)

lemma buildElement_valid:
  assumes "valid_element_name h (el_type d)"
  shows "\<exists>s1. buildElement h d s = (Some (fresh s), s1)
     \<and> only_attributes (fresh s) (allocate (new_node HTMLElement (toLowerCase (el_type d))) s) s1"
  using assms
  by (auto simp add: buildElement_def document_createElement_def
      intro: only_attributes_trans [OF only_attributes_setAttr only_attributes_setData])

lemma createElementNS_valid:
  assumes "valid_qualified_name h (el_type d)"
  shows "\<exists>s1. createElementNS h d s = (Some (fresh s), s1)
     \<and> only_attributes (fresh s) (allocate (new_node SVGElement (el_type d)) s) s1"
  using assms
  by (auto simp add: createElementNS_def document_createElementNS_svg_def
      intro: only_attributes_trans [OF only_attributes_setAttr
               only_attributes_trans [OF only_attributes_setAttrNS only_attributes_setData]])

lemma attached_new_appendChild:
  assumes "only_attributes (fresh s) (allocate (new_node k t) s) s1" and "p \<noteq> fresh s"
  shows "attached_new s p k t (appendChild p (fresh s) s1)"
proof -
  from assms(1) obtain A R where s1:
    "s1 = (allocate (new_node k t) s)\<lparr>dom := (dom (allocate (new_node k t) s))
        (fresh s := (dom (allocate (new_node k t) s) (fresh s))\<lparr>attributes := A\<rparr>),
        ElementRefStore := R\<rparr>"
    unfolding only_attributes_def by blast
  show ?thesis
    using assms(2)
    by (simp add: s1 attached_new_def appendChild_def detach_def allocate_def new_node_def)
qed

lemma TypeSelect_buildable:
  assumes "e \<noteq> []"
    and "if is_svg e then valid_qualified_name h e else valid_element_name h e"
    and "p \<noteq> fresh s" and "is_svg e \<longrightarrow> \<not> is_ShadowRoot (kind (dom s p))"
  shows "\<exists>s1. TypeSelect (toLowerCase e) h
            \<lparr>bd_parent = Live p, bd_shadow = [],
             bd_element = \<lparr>el_type = e, el_attr = a, el_attrNS = an, el_dataset = d\<rparr>\<rparr> s
          = (Some (fresh s), s1)
        \<and> attached_new s p (if is_svg e then SVGElement else HTMLElement)
            (if is_svg e then e else toLowerCase e) s1"
proof (cases "is_svg e")
  case True
  let ?desc = "\<lparr>el_type = e, el_attr = a, el_attrNS = an, el_dataset = d\<rparr>"
  from True assms(2) have "valid_qualified_name h (el_type ?desc)" by simp
  from createElementNS_valid [OF this, of s] obtain s1
    where built: "createElementNS h ?desc s = (Some (fresh s), s1)"
      and attrs: "only_attributes (fresh s) (allocate (new_node SVGElement e) s) s1"
    by auto
  from attrs assms(3) have "kind (dom s1 p) = kind (dom s p)"
    by (auto simp add: only_attributes_def allocate_def)
  with True assms(4) have "createSVGElement h
      \<lparr>bd_parent = Live p, bd_shadow = [], bd_element = ?desc\<rparr> s
      = (Some (fresh s), appendChild p (fresh s) s1)"
    by (cases "kind (dom s p)") (simp_all add: createSVGElement_def built)
  with True attached_new_appendChild [OF attrs assms(3)] show ?thesis
    by (simp add: TypeSelect_def is_svg_def)
next
  case False
  let ?desc = "\<lparr>el_type = e, el_attr = a, el_attrNS = an, el_dataset = d\<rparr>"
  from False assms(2) have "valid_element_name h (el_type ?desc)" by simp
  from buildElement_valid [OF this, of s] obtain s1
    where built: "buildElement h ?desc s = (Some (fresh s), s1)"
      and attrs: "only_attributes (fresh s) (allocate (new_node HTMLElement (toLowerCase e)) s) s1"
    by auto
  have "createHTMLElement h \<lparr>bd_parent = Live p, bd_shadow = [], bd_element = ?desc\<rparr> s
      = (Some (fresh s), appendChild p (fresh s) s1)"
    by (simp add: createHTMLElement_def built)
  with False attached_new_appendChild [OF attrs assms(3)] show ?thesis
    by (simp add: TypeSelect_def is_svg_def)
qed

lemma final_state_createFromStruct:
  assumes "e \<noteq> []"
    and "TypeSelect (toLowerCase e) h
            \<lparr>bd_parent = Live p, bd_shadow = sh,
             bd_element = \<lparr>el_type = e, el_attr = a, el_attrNS = an, el_dataset = d\<rparr>\<rparr> s
          = (Some x, s1)"
  shows "final_state (createFromStruct h (Data (Struct e a an d t ht ev ch sh) (Live p)) cb s)
     = final_state (createChildren h (Struct e a an d t ht ev ch sh) (Some x) cb
         (createEventElement h (Struct e a an d t ht ev ch sh) (Some x) (apply_content x t ht s1)))"
  using assms
  by (simp add: final_state_def apply_content_def Let_def del: createChildren.simps
      split: prod.splits)

lemma final_state_Default:
  "final_state (createFromStruct h (Data st Default) cb s)
   = final_state (createFromStruct h (Data st (Live body)) cb s)"
  by (cases st)
    (simp_all add: final_state_def Let_def del: createChildren.simps
      split: prod.splits sum.splits option.splits)

lemma final_state_createChildren:
  "final_state (createChildren h (Struct e a an d t ht ev ch sh) el cb s)
   = (case ch of
        None \<Rightarrow> after_callback cb s
      | Some cs \<Rightarrow> final_state (createChildren_loop h cs el cb s))"
  by (simp add: final_state_def after_callback_def split: option.splits callback.splits prod.splits)

lemma final_state_loop_Nil: "final_state (createChildren_loop h [] el cb s) = s"
  by (simp add: final_state_def)

lemma final_state_loop_Cons:
  assumes "c \<noteq> Falsy"
  shows "final_state (createChildren_loop h (c # rest) (Some x) cb s)
     = (let s1 = final_state (createFromStruct h (Data c (Live x)) cb s)
        in if rest = [] then after_callback cb s1
           else final_state (createChildren_loop h rest (Some x) cb s1))"
  using assms
  by (cases c)
    (simp_all add: final_state_def after_callback_def Let_def del: createFromStruct.simps
      split: prod.splits callback.splits data.splits)

lemma prepared_from_attached: "attached_new s p k t s' \<Longrightarrow> prepared s p k t s'"
  by (simp add: attached_new_def prepared_def)

lemma replace_content_childless:
  assumes "childNodes (dom s x) = []"
  shows "replace_content x c s = s\<lparr>dom := (dom s)(x := (dom s x)\<lparr>content := c\<rparr>)\<rparr>"
proof -
  have "(\<lambda>y. if y = x then (dom s x)\<lparr>childNodes := [], content := c\<rparr>
             else if y \<in> set (childNodes (dom s x)) then (dom s y)\<lparr>parentNode := None\<rparr>
             else dom s y) = (dom s)(x := (dom s x)\<lparr>content := c\<rparr>)"
    using assms by (auto simp add: fun_eq_iff)
  then show ?thesis
    by (simp add: replace_content_def)
qed

lemma prepared_replace_content:
  assumes "prepared s p k t s1" and "p \<noteq> fresh s"
  shows "prepared s p k t (replace_content (fresh s) c s1)"
proof -
  from assms(1) have "childNodes (dom s1 (fresh s)) = []"
    by (simp add: prepared_def)
  then have "replace_content (fresh s) c s1
      = s1\<lparr>dom := (dom s1)(fresh s := (dom s1 (fresh s))\<lparr>content := c\<rparr>)\<rparr>"
    by (rule replace_content_childless)
  with assms show ?thesis
    by (simp add: prepared_def)
qed

lemma prepared_content:
  assumes "prepared s p k t s1" and "p \<noteq> fresh s"
  shows "prepared s p k t (apply_content (fresh s) txt ht s1)"
  using assms by (simp add: apply_content_def Let_def prepared_replace_content)

lemma prepared_register:
  assumes "prepared s p k t s1" and "p \<noteq> fresh s"
  shows "prepared s p k t (registerEventStore (Some (fresh s)) ty f nid s1)"
  using assms
  by (simp add: prepared_def registerEventStore_def addEventListener_def Let_def)

lemma prepared_event:
  assumes "prepared s p k t s1" and "p \<noteq> fresh s"
  shows "prepared s p k t (createEventElement h st (Some (fresh s)) s1)"
  using assms
  by (simp add: createEventElement_def prepared_register split: option.splits)

lemma extends_Nil: "extends s p [] s"
  by (simp add: extends_def)

lemma extends_after_callback:
  "extends s p ids s' \<Longrightarrow> extends s p ids (after_callback cb s')"
  by (cases cb) (simp_all add: extends_def after_callback_def call_cb_def)

lemma fresh_after_callback [simp]: "fresh (after_callback cb s) = fresh s"
  by (cases cb) (simp_all add: after_callback_def call_cb_def)

lemma dom_after_callback [simp]: "dom (after_callback cb s) = dom s"
  by (cases cb) (simp_all add: after_callback_def call_cb_def)

lemma extends_trans:
  assumes "extends s p ids s1" and "extends s1 p ids' s2" and "fresh s \<le> fresh s1"
  shows "extends s p (ids @ ids') s2"
  using assms by (simp add: extends_def)

lemma extends_node:
  assumes "prepared s p k t s3" and "p < fresh s" and "extends s3 (fresh s) ids s'"
  shows "extends s p [fresh s] s'"
    and "kind (dom s' (fresh s)) = k" and "tagName (dom s' (fresh s)) = t"
    and "parentNode (dom s' (fresh s)) = Some p" and "childNodes (dom s' (fresh s)) = ids"
  using assms by (simp_all add: extends_def prepared_def)

lemma realised_cong:
  "(\<And>y. x \<le> y \<Longrightarrow> y < x + nodes st \<Longrightarrow> dm' y = dm y)
     \<Longrightarrow> realised dm' x p st = realised dm x p st"
  "(\<And>y. x \<le> y \<Longrightarrow> y < x + nodes_list cs \<Longrightarrow> dm' y = dm y)
     \<Longrightarrow> realised_list dm' x p cs = realised_list dm x p cs"
proof (induction dm x p st and dm x p cs rule: realised_realised_list.induct)
  case (1 dm x p)
  show ?case by simp
next
  case (2 dm x p e a an d t ht ev ch sh)
  have here: "dm' x = dm x"
    by (rule "2.prems") simp_all
  show ?case
  proof (cases ch)
    case None
    then show ?thesis by (simp add: here)
  next
    case (Some cs)
    have "realised_list dm' (Suc x) x cs = realised_list dm (Suc x) x cs"
      by (rule "2.IH" [OF Some]) (rule "2.prems", simp_all add: Some)
    with Some show ?thesis by (simp add: here)
  qed
next
  case (3 dm x p)
  show ?case by simp
next
  case (4 dm x p c cs)
  have "realised dm' x p c = realised dm x p c"
    by (rule "4.IH"(1)) (rule "4.prems", simp_all)
  moreover have "realised_list dm' (x + nodes c) p cs = realised_list dm (x + nodes c) p cs"
    by (rule "4.IH"(2)) (rule "4.prems", simp_all)
  ultimately show ?case by simp
qed

lemma prepared_extends:
  assumes "prepared s p k t s3" and "p < fresh s"
  shows "extends s p [fresh s] s3"
  using assms by (simp add: extends_def prepared_def)

lemma compile_spec:
  "buildable h st \<Longrightarrow> p < fresh s \<Longrightarrow> \<not> is_ShadowRoot (kind (dom s p)) \<Longrightarrow>
     fresh (final_state (createFromStruct h (Data st (Live p)) cb s)) = fresh s + nodes st
     \<and> extends s p [fresh s] (final_state (createFromStruct h (Data st (Live p)) cb s))
     \<and> realised (dom (final_state (createFromStruct h (Data st (Live p)) cb s))) (fresh s) p st"
  "buildable_list h cs \<Longrightarrow> p < fresh s \<Longrightarrow> \<not> is_ShadowRoot (kind (dom s p)) \<Longrightarrow>
     fresh (final_state (createChildren_loop h cs (Some p) cb s)) = fresh s + nodes_list cs
     \<and> extends s p (child_ids (fresh s) cs) (final_state (createChildren_loop h cs (Some p) cb s))
     \<and> realised_list (dom (final_state (createChildren_loop h cs (Some p) cb s))) (fresh s) p cs"
proof (induction st and cs arbitrary: s p cb and s p cb rule: nodes_nodes_list.induct)
  case 1
  then show ?case by simp
next
  case (2 e a an d t ht ev ch sh)
  let ?st = "Struct e a an d t ht ev ch sh"
  let ?k = "if is_svg e then SVGElement else HTMLElement"
  let ?t = "if is_svg e then e else toLowerCase e"
  let ?c = "fresh s"
  from "2.prems"(1) have e: "e \<noteq> []"
    and valid: "if is_svg e then valid_qualified_name h e else valid_element_name h e"
    and sh: "sh = []"
    by simp_all
  from "2.prems"(2) have pc: "p \<noteq> ?c" by simp
  from "2.prems"(3) have ns0: "is_svg e \<longrightarrow> \<not> is_ShadowRoot (kind (dom s p))" by simp
  from TypeSelect_buildable [OF e valid pc ns0, of a an d] obtain s1
    where sel: "TypeSelect (toLowerCase e) h
            \<lparr>bd_parent = Live p, bd_shadow = sh,
             bd_element = \<lparr>el_type = e, el_attr = a, el_attrNS = an, el_dataset = d\<rparr>\<rparr> s
          = (Some ?c, s1)"
      and new: "attached_new s p ?k ?t s1"
    unfolding sh by blast
  let ?s3 = "createEventElement h ?st (Some ?c) (apply_content ?c t ht s1)"
  have prep: "prepared s p ?k ?t ?s3"
    by (intro prepared_event prepared_content prepared_from_attached new pc)
  have final: "final_state (createFromStruct h (Data ?st (Live p)) cb s)
      = (case ch of None \<Rightarrow> after_callback cb ?s3
         | Some cs \<Rightarrow> final_state (createChildren_loop h cs (Some ?c) cb ?s3))"
    by (simp only: final_state_createFromStruct [OF e sel] final_state_createChildren)
  show ?case
  proof (cases ch)
    case None
    from prep have "fresh ?s3 = Suc ?c" and "kind (dom ?s3 ?c) = ?k" and "tagName (dom ?s3 ?c) = ?t"
      and "parentNode (dom ?s3 ?c) = Some p" and "childNodes (dom ?s3 ?c) = []"
      by (simp_all add: prepared_def)
    with None prepared_extends [OF prep "2.prems"(2)] show ?thesis
      unfolding final by (simp add: extends_after_callback)
  next
    case (Some cs)
    let ?s' = "final_state (createChildren_loop h cs (Some ?c) cb ?s3)"
    from prep have fresh3: "fresh ?s3 = Suc ?c" and kind3: "kind (dom ?s3 ?c) = ?k"
      by (simp_all add: prepared_def)
    from "2.prems"(1) Some have bl: "buildable_list h cs" by simp
    have lt: "?c < fresh ?s3" by (simp add: fresh3)
    have ns: "\<not> is_ShadowRoot (kind (dom ?s3 ?c))" by (simp add: kind3)
    have "fresh ?s' = fresh ?s3 + nodes_list cs
      \<and> extends ?s3 ?c (child_ids (fresh ?s3) cs) ?s'
      \<and> realised_list (dom ?s') (fresh ?s3) ?c cs"
      by (rule "2.IH" [OF Some bl lt ns])
    then have IH: "fresh ?s' = fresh ?s3 + nodes_list cs"
      "extends ?s3 ?c (child_ids (fresh ?s3) cs) ?s'"
      "realised_list (dom ?s') (fresh ?s3) ?c cs"
      by blast+
    note node = extends_node [OF prep "2.prems"(2) IH(2)]
    from Some IH(1,3) node fresh3 show ?thesis
      unfolding final by simp
  qed
next
  case 3
  show ?case
    by (simp add: final_state_def extends_Nil)
next
  case (4 c cs)
  from "4.prems"(1) have bc: "buildable h c" and bcs: "buildable_list h cs"
    by simp_all
  from bc have c: "c \<noteq> Falsy" by auto
  let ?s1 = "final_state (createFromStruct h (Data c (Live p)) cb s)"
  have "fresh ?s1 = fresh s + nodes c \<and> extends s p [fresh s] ?s1
      \<and> realised (dom ?s1) (fresh s) p c"
    by (rule "4.IH"(1) [OF bc "4.prems"(2,3)])
  then have fresh1: "fresh ?s1 = fresh s + nodes c"
    and ext1: "extends s p [fresh s] ?s1"
    and real1: "realised (dom ?s1) (fresh s) p c"
    by blast+
  from ext1 have kind1: "kind (dom ?s1 p) = kind (dom s p)"
    by (simp add: extends_def)
  have p1: "p < fresh ?s1" using "4.prems"(2) by (simp add: fresh1)
  let ?s2 = "final_state (createChildren_loop h cs (Some p) cb ?s1)"
  have ns1: "\<not> is_ShadowRoot (kind (dom ?s1 p))"
    using "4.prems"(3) by (simp add: kind1)
  have "fresh ?s2 = fresh ?s1 + nodes_list cs
      \<and> extends ?s1 p (child_ids (fresh ?s1) cs) ?s2
      \<and> realised_list (dom ?s2) (fresh ?s1) p cs"
    by (rule "4.IH"(2) [OF bcs p1 ns1])
  then have fresh2: "fresh ?s2 = fresh ?s1 + nodes_list cs"
    and ext2: "extends ?s1 p (child_ids (fresh ?s1) cs) ?s2"
    and real2: "realised_list (dom ?s2) (fresh ?s1) p cs"
    by blast+
  have final: "final_state (createChildren_loop h (c # cs) (Some p) cb s)
      = (if cs = [] then after_callback cb ?s1 else ?s2)"
    by (simp only: final_state_loop_Cons [OF c] Let_def)
  show ?case
  proof (cases "cs = []")
    case True
    with fresh1 ext1 real1 show ?thesis
      unfolding final by (simp add: extends_after_callback)
  next
    case False
    have ext: "extends s p ([fresh s] @ child_ids (fresh ?s1) cs) ?s2"
      by (rule extends_trans [OF ext1 ext2]) (simp add: fresh1)
    have "realised (dom ?s2) (fresh s) p c = realised (dom ?s1) (fresh s) p c"
    proof (rule realised_cong(1))
      fix y assume "fresh s \<le> y" and "y < fresh s + nodes c"
      with "4.prems"(2) have "y < fresh ?s1" and "y \<noteq> p"
        by (simp_all add: fresh1)
      with ext2 show "dom ?s2 y = dom ?s1 y"
        by (simp add: extends_def)
    qed
    with real1 have "realised (dom ?s2) (fresh s) p c" by simp
    with False ext real2 fresh2 show ?thesis
      unfolding final by (simp add: fresh1 add.assoc)
  qed
qed

lemma keeps_below_refl: "keeps_below n s s"
  by (simp add: keeps_below_def)

lemma keeps_below_trans:
  "keeps_below n s s1 \<Longrightarrow> keeps_below n s1 s2 \<Longrightarrow> keeps_below n s s2"
proof -
  assume a: "keeps_below n s s1" and b: "keeps_below n s1 s2"
  show ?thesis
    unfolding keeps_below_def
  proof (intro allI impI)
    fix x assume "x < n"
    with a b have "listeners (dom s1 x) = listeners (dom s x)
        \<and> parentNode (dom s1 x) = parentNode (dom s x)
        \<and> kind (dom s1 x) = kind (dom s x) \<and> tagName (dom s1 x) = tagName (dom s x)
        \<and> set (childNodes (dom s x)) \<subseteq> set (childNodes (dom s1 x))
        \<and> ActionRefStore s1 x = ActionRefStore s x"
      and "listeners (dom s2 x) = listeners (dom s1 x)
        \<and> parentNode (dom s2 x) = parentNode (dom s1 x)
        \<and> kind (dom s2 x) = kind (dom s1 x) \<and> tagName (dom s2 x) = tagName (dom s1 x)
        \<and> set (childNodes (dom s1 x)) \<subseteq> set (childNodes (dom s2 x))
        \<and> ActionRefStore s2 x = ActionRefStore s1 x"
      unfolding keeps_below_def by blast+
    then show "listeners (dom s2 x) = listeners (dom s x)
        \<and> parentNode (dom s2 x) = parentNode (dom s x)
        \<and> kind (dom s2 x) = kind (dom s x) \<and> tagName (dom s2 x) = tagName (dom s x)
        \<and> set (childNodes (dom s x)) \<subseteq> set (childNodes (dom s2 x))
        \<and> ActionRefStore s2 x = ActionRefStore s x"
      by auto
  qed
qed

lemma keeps_below_only_attributes: "only_attributes e s s' \<Longrightarrow> keeps_below n s s'"
  by (auto simp add: only_attributes_def keeps_below_def)

lemma keeps_below_allocate: "n \<le> fresh s \<Longrightarrow> keeps_below n s (allocate nd s)"
  by (simp add: keeps_below_def allocate_def)

lemma keeps_below_appendChild:
  "n \<le> c \<Longrightarrow> parentNode (dom s c) = None \<Longrightarrow> keeps_below n s (appendChild p c s)"
  by (auto simp add: keeps_below_def appendChild_def detach_def Let_def)

lemma keeps_below_replace_content:
  "n \<le> x \<Longrightarrow> childNodes (dom s x) = [] \<Longrightarrow> keeps_below n s (replace_content x c s)"
  by (simp add: replace_content_childless keeps_below_def)

lemma keeps_below_apply_content:
  "n \<le> x \<Longrightarrow> childNodes (dom s x) = [] \<Longrightarrow> keeps_below n s (apply_content x t ht s)"
  by (simp add: apply_content_def Let_def replace_content_childless keeps_below_def)

lemma keeps_below_register:
  "n \<le> x \<Longrightarrow> keeps_below n s (registerEventStore (Some x) ty f nid s)"
  by (simp add: registerEventStore_def addEventListener_def Let_def keeps_below_def)

lemma keeps_below_event:
  "\<forall>x. el = Some x \<longrightarrow> n \<le> x \<Longrightarrow> keeps_below n s (createEventElement h st el s)"
  by (cases el)
    (simp_all add: createEventElement_def keeps_below_register keeps_below_refl
      registerEventStore_def [of None] split: option.splits)

lemma keeps_below_after_callback: "keeps_below n s (after_callback cb s)"
  by (cases cb) (simp_all add: keeps_below_def after_callback_def call_cb_def)

lemma keeps_below_attachShadow:
  "attachShadow h x m s = Some (r, s') \<Longrightarrow> n \<le> fresh s \<Longrightarrow> keeps_below n s s'"
  by (auto simp add: attachShadow_def keeps_below_def allocate_def Let_def split: if_splits)

lemma created_only_attributes:
  "only_attributes (fresh s) (allocate (new_node k t) s) s1 \<Longrightarrow> created s s1"
  by (auto simp add: only_attributes_def created_def allocate_def new_node_def)

lemma buildElement_cases:
  assumes "buildElement h d s = (r, s1)"
  shows "(r = None \<and> s1 = s) \<or> (r = Some (fresh s) \<and> created s s1)"
proof (cases "valid_element_name h (el_type d)")
  case True
  from buildElement_valid [OF True, of s] assms show ?thesis
    by (auto intro: created_only_attributes)
next
  case False
  with assms show ?thesis
    by (simp add: buildElement_def document_createElement_def)
qed

lemma createElementNS_cases:
  assumes "createElementNS h d s = (r, s1)"
  shows "(r = None \<and> s1 = s) \<or> (r = Some (fresh s) \<and> created s s1)"
proof (cases "valid_qualified_name h (el_type d)")
  case True
  from createElementNS_valid [OF True, of s] assms show ?thesis
    by (auto intro: created_only_attributes)
next
  case False
  with assms show ?thesis
    by (simp add: createElementNS_def document_createElementNS_svg_def)
qed

lemma builder_ok_None: "keeps_below (fresh s) s s1 \<Longrightarrow> fresh s \<le> fresh s1 \<Longrightarrow> builder_ok s None s1"
  by (simp add: builder_ok_def)

lemma keeps_below_created: "created s s1 \<Longrightarrow> n \<le> fresh s \<Longrightarrow> keeps_below n s s1"
  by (simp add: created_def keeps_below_def)

lemma created_appendChild:
  assumes "created s s1" and "p \<noteq> fresh s"
  shows "builder_ok s (Some (fresh s)) (appendChild p (fresh s) s1)"
    and "fresh (appendChild p (fresh s) s1) = Suc (fresh s)"
  using assms
  by (auto simp add: created_def builder_ok_def keeps_below_def appendChild_def detach_def Let_def)

lemma created_created_appendChild:
  assumes "created s s1" and "created s1 s2"
  shows "builder_ok s (Some (fresh s)) (appendChild (fresh s1) (fresh s) s2)"
    and "fresh (appendChild (fresh s1) (fresh s) s2) = Suc (Suc (fresh s))"
  using assms
  by (auto simp add: created_def builder_ok_def keeps_below_def appendChild_def detach_def Let_def)

lemma attachShadow_result:
  assumes "attachShadow h x m s2 = Some (r, s3)"
  shows "r = fresh s2" and "fresh s3 = Suc (fresh s2)" and "childNodes (dom s3 r) = []"
  using assms
  by (auto simp add: attachShadow_def allocate_def new_node_def Let_def split: if_splits)

lemma builder_ok_attachShadow:
  assumes "builder_ok s el s2" and "attachShadow h x m s2 = Some (r, s3)"
  shows "builder_ok s (Some r) s3"
proof -
  from assms(1) have k: "keeps_below (fresh s) s s2" and le: "fresh s \<le> fresh s2"
    by (simp_all add: builder_ok_def)
  from keeps_below_trans [OF k keeps_below_attachShadow [OF assms(2) le]]
    attachShadow_result [OF assms(2)] le
  show ?thesis
    by (simp add: builder_ok_def)
qed

lemma builder_ok_drop: "builder_ok s el s1 \<Longrightarrow> builder_ok s None s1"
  by (simp add: builder_ok_def)

lemma builder_ok_refl: "builder_ok s None s"
  by (simp add: builder_ok_def keeps_below_refl)

lemma builder_ok_created: "created s s1 \<Longrightarrow> builder_ok s None s1"
  by (simp add: builder_ok_def keeps_below_created) (simp add: created_def)

lemma builder_ok_created_created: "created s s1 \<Longrightarrow> created s1 s2 \<Longrightarrow> builder_ok s None s2"
  by (auto simp add: builder_ok_def created_def
      intro: keeps_below_trans [OF keeps_below_created keeps_below_created])

lemma createHTMLElement_attach:
  assumes "buildElement h (bd_element data) s = (childElement, s1)"
    and "0 < fresh s" and "\<forall>p. bd_parent data = Live p \<longrightarrow> p < fresh s"
    and "(case bd_parent data of
            Live p \<Rightarrow>
              (case childElement of None \<Rightarrow> Inl s1 | Some c \<Rightarrow> Inr (c, appendChild p c s1))
          | Described pd \<Rightarrow>
              (case buildElement h pd s1 of
                 (None, s2) \<Rightarrow> Inl s2
               | (Some parentElement, s2) \<Rightarrow>
                   (case childElement of
                      None \<Rightarrow> Inl s2
                    | Some c \<Rightarrow> Inr (c, appendChild parentElement c s2)))
          | _ \<Rightarrow>
              (case childElement of None \<Rightarrow> Inl s1 | Some c \<Rightarrow> Inr (c, appendChild body c s1)))
         = A"
  shows "case A of Inl s2 \<Rightarrow> builder_ok s None s2 | Inr (c, s2) \<Rightarrow> builder_ok s (Some c) s2"
proof -
  from buildElement_cases [OF assms(1)]
  consider "childElement = None" "s1 = s" | "childElement = Some (fresh s)" "created s s1"
    by blast
  then show ?thesis
  proof cases
    case 1
    show ?thesis
    proof (cases "bd_parent data")
      case (Described pd)
      obtain r2 s2 where b2: "buildElement h pd s = (r2, s2)" by (cases "buildElement h pd s")
      from buildElement_cases [OF b2] have "builder_ok s None s2"
        by (auto intro: builder_ok_refl builder_ok_created)
      with assms(4) 1 Described b2 show ?thesis
        by (auto split: option.splits)
    qed (use assms(4) 1 in \<open>auto intro: builder_ok_refl\<close>)
  next
    case 2
    from assms(2) have b: "body \<noteq> fresh s" by (simp add: body_def)
    show ?thesis
    proof (cases "bd_parent data")
      case (Live p)
      with assms(3) have "p \<noteq> fresh s" by auto
      from created_appendChild(1) [OF 2(2) this] assms(4) 2 Live show ?thesis
        by auto
    next
      case (Described pd)
      obtain r2 s2 where b2: "buildElement h pd s1 = (r2, s2)" by (cases "buildElement h pd s1")
      from buildElement_cases [OF b2]
      consider "r2 = None" "s2 = s1" | "r2 = Some (fresh s1)" "created s1 s2" by blast
      then show ?thesis
      proof cases
        case 1
        with assms(4) 2 Described b2 builder_ok_created [OF 2(2)] show ?thesis by auto
      next
        case 2
        with assms(4) \<open>childElement = Some (fresh s)\<close> Described b2
          created_created_appendChild(1) [OF \<open>created s s1\<close> 2(2)]
        show ?thesis by auto
      qed
    qed (use assms(4) 2 created_appendChild(1) [OF 2(2) b] in auto)
  qed
qed

lemma createHTMLElement_ok:
  assumes "createHTMLElement h data s = (el, s')"
    and "0 < fresh s" and "\<forall>p. bd_parent data = Live p \<longrightarrow> p < fresh s"
  shows "builder_ok s el s'"
proof -
  obtain childElement s1 where b: "buildElement h (bd_element data) s = (childElement, s1)"
    by (cases "buildElement h (bd_element data) s")
  note attach = createHTMLElement_attach [OF b assms(2,3) refl]
  show ?thesis
    using assms(1) attach
    unfolding createHTMLElement_def b
    by (auto split: sum.splits if_splits jsval.splits option.splits
        intro: builder_ok_attachShadow builder_ok_drop)
qed

lemma builder_ok_unattached: "created s s1 \<Longrightarrow> builder_ok s (Some (fresh s)) s1"
  by (simp add: builder_ok_def keeps_below_created) (simp add: created_def)

lemma createSVGElement_via_description:
  assumes "createElementNS h (bd_element data) s = (childElement, s1)"
    and "(case createElementNS h pd s1 of
            (None, s2) \<Rightarrow> (None, s2)
          | (Some parentElement, s2) \<Rightarrow>
              (case childElement of
                 None \<Rightarrow> (None, s2)
               | Some c \<Rightarrow> (Some c, appendChild parentElement c s2))) = (el, s')"
  shows "builder_ok s el s'"
proof -
  obtain r2 s2 where b2: "createElementNS h pd s1 = (r2, s2)" by (cases "createElementNS h pd s1")
  from createElementNS_cases [OF assms(1)]
  consider "childElement = None" "s1 = s" | "childElement = Some (fresh s)" "created s s1"
    by blast
  then show ?thesis
  proof cases
    case 1
    from createElementNS_cases [OF b2] 1 have "builder_ok s None s2"
      by (auto intro: builder_ok_refl builder_ok_created)
    with assms(2) 1 b2 show ?thesis
      by (auto split: option.splits)
  next
    case 2
    from createElementNS_cases [OF b2]
    consider "r2 = None" "s2 = s1" | "r2 = Some (fresh s1)" "created s1 s2" by blast
    then show ?thesis
    proof cases
      case 1
      with assms(2) 2 b2 builder_ok_created [OF 2(2)] show ?thesis by auto
    next
      case 2
      with assms(2) \<open>childElement = Some (fresh s)\<close> b2
        created_created_appendChild(1) [OF \<open>created s s1\<close> 2(2)]
      show ?thesis by auto
    qed
  qed
qed

lemma createSVGElement_ok:
  assumes "createSVGElement h data s = (el, s')"
    and "\<forall>p. bd_parent data = Live p \<longrightarrow> p < fresh s"
  shows "builder_ok s el s'"
proof -
  obtain childElement s1 where b: "createElementNS h (bd_element data) s = (childElement, s1)"
    by (cases "createElementNS h (bd_element data) s")
  note via = createSVGElement_via_description [OF b]
  from createElementNS_cases [OF b]
  have direct: "builder_ok s childElement s1"
    by (auto intro: builder_ok_refl builder_ok_unattached)
  show ?thesis
  proof (cases "bd_parent data")
    case (Live p)
    with assms(2) have p: "p \<noteq> fresh s" by auto
    show ?thesis
    proof (cases "is_ShadowRoot (kind (dom s1 p))")
      case True
      with assms(1) Live b show ?thesis
        by (auto simp add: createSVGElement_def split: node_kind.splits intro: via)
    next
      case False
      from createElementNS_cases [OF b]
      have "case childElement of None \<Rightarrow> builder_ok s None s1
            | Some c \<Rightarrow> builder_ok s (Some c) (appendChild p c s1)"
        by (auto intro: builder_ok_refl created_appendChild(1) [OF _ p])
      with False assms(1) Live b show ?thesis
        by (auto simp add: createSVGElement_def split: node_kind.splits option.splits)
    qed
  next
    case (Described pd)
    with assms(1) b show ?thesis
      by (auto simp add: createSVGElement_def intro: via)
  qed (use assms(1) b direct in \<open>auto simp add: createSVGElement_def\<close>)
qed

lemma TypeSelect_ok:
  assumes "TypeSelect t h data s = (el, s')"
    and "0 < fresh s" and "\<forall>p. bd_parent data = Live p \<longrightarrow> p < fresh s"
  shows "builder_ok s el s'"
  using assms
  by (auto simp add: TypeSelect_def intro: createHTMLElement_ok createSVGElement_ok split: if_splits)

lemma grows_refl: "grows s s"
  by (simp add: grows_def keeps_below_refl)

lemma keeps_below_mono: "keeps_below n s s' \<Longrightarrow> m \<le> n \<Longrightarrow> keeps_below m s s'"
  by (simp add: keeps_below_def)

lemma grows_trans:
  assumes "grows s s1" and "grows s1 s2"
  shows "grows s s2"
proof -
  from assms have a: "keeps_below (fresh s) s s1" and le1: "fresh s \<le> fresh s1"
    and b: "keeps_below (fresh s1) s1 s2" and le2: "fresh s1 \<le> fresh s2"
    by (simp_all add: grows_def)
  from keeps_below_trans [OF a keeps_below_mono [OF b le1]] le1 le2 show ?thesis
    by (simp add: grows_def)
qed

lemma grows_after_callback:
  assumes "grows s s'"
  shows "grows s (after_callback cb s')"
proof -
  from assms have a: "keeps_below (fresh s) s s'" and le: "fresh s \<le> fresh s'"
    by (simp_all add: grows_def)
  from keeps_below_trans [OF a keeps_below_after_callback] le show ?thesis
    by (simp add: grows_def)
qed

lemma fresh_apply_content [simp]: "fresh (apply_content x t ht s) = fresh s"
  by (simp add: apply_content_def replace_content_def Let_def)

lemma fresh_createEventElement [simp]: "fresh (createEventElement h st el s) = fresh s"
  by (simp add: createEventElement_def registerEventStore_def addEventListener_def Let_def
      split: option.splits)

lemma createEventElement_None [simp]: "createEventElement h st None s = s"
  by (simp add: createEventElement_def registerEventStore_def split: option.splits)

lemma final_state_Falsy: "final_state (createFromStruct h (Data Falsy parent) cb s) = s"
  by (simp add: final_state_def)

lemma final_state_createFromStruct_general:
  "final_state (createFromStruct h (Data (Struct e a an d t ht ev ch sh) parent) cb s) =
     (if e = [] then s
      else
        (case TypeSelect (toLowerCase e) h
                \<lparr>bd_parent = (case parent of Default \<Rightarrow> Live body | _ \<Rightarrow> parent),
                 bd_shadow = sh,
                 bd_element = \<lparr>el_type = e, el_attr = a, el_attrNS = an, el_dataset = d\<rparr>\<rparr> s
         of
           (None, s1) \<Rightarrow>
             if t \<noteq> [] \<or> ht \<noteq> [] then s1
             else final_state (createChildren h (Struct e a an d t ht ev ch sh) None cb s1)
         | (Some x, s1) \<Rightarrow>
             final_state (createChildren h (Struct e a an d t ht ev ch sh) (Some x) cb
               (createEventElement h (Struct e a an d t ht ev ch sh) (Some x)
                  (apply_content x t ht s1)))))"
  by (simp add: final_state_def apply_content_def Let_def del: createChildren.simps
      split: prod.splits option.splits)

lemma final_state_loop_Cons_general:
  "final_state (createChildren_loop h (c # rest) el cb s)
     = (let s1 = final_state (createFromStruct h
                   (Data c (case el of None \<Rightarrow> Default | Some x \<Rightarrow> Live x)) cb s)
        in if rest = [] then after_callback cb s1
           else final_state (createChildren_loop h rest el cb s1))"
  by (cases c)
    (simp_all add: final_state_def after_callback_def Let_def del: createFromStruct.simps
      split: prod.splits callback.splits data.splits,
     simp_all add: final_state_def)

lemma grows_builder: "builder_ok s el s1 \<Longrightarrow> grows s s1"
  by (simp add: builder_ok_def grows_def)

lemma grows_prepare:
  assumes "builder_ok s (Some x) s1"
  shows "grows s (createEventElement h st (Some x) (apply_content x t ht s1))"
    and "x < fresh (createEventElement h st (Some x) (apply_content x t ht s1))"
proof -
  from assms have k: "keeps_below (fresh s) s s1" and le: "fresh s \<le> fresh s1"
    and x: "fresh s \<le> x" "x < fresh s1" "childNodes (dom s1 x) = []"
    by (simp_all add: builder_ok_def)
  have "keeps_below (fresh s) s1 (apply_content x t ht s1)"
    by (rule keeps_below_apply_content [OF x(1,3)])
  moreover have "keeps_below (fresh s) (apply_content x t ht s1)
      (createEventElement h st (Some x) (apply_content x t ht s1))"
    by (rule keeps_below_event) (simp add: x(1))
  ultimately have "keeps_below (fresh s) s
      (createEventElement h st (Some x) (apply_content x t ht s1))"
    using k by (blast intro: keeps_below_trans)
  with le show "grows s (createEventElement h st (Some x) (apply_content x t ht s1))"
    by (simp add: grows_def)
  from x(2) show "x < fresh (createEventElement h st (Some x) (apply_content x t ht s1))"
    by simp
qed

lemma grows_fresh: "grows s s' \<Longrightarrow> n < fresh s \<Longrightarrow> n < fresh s'"
  by (simp add: grows_def)

lemma compile_grows:
  "0 < fresh s \<Longrightarrow> (\<forall>p. parent = Live p \<longrightarrow> p < fresh s) \<Longrightarrow>
     grows s (final_state (createFromStruct h (Data st parent) cb s))"
  "0 < fresh s \<Longrightarrow> (\<forall>x. el = Some x \<longrightarrow> x < fresh s) \<Longrightarrow>
     grows s (final_state (createChildren_loop h cs el cb s))"
proof (induction st and cs arbitrary: s parent cb and s el cb rule: nodes_nodes_list.induct)
  case 1
  show ?case by (simp only: final_state_Falsy grows_refl)
next
  case (2 e a an d t ht ev ch sh)
  let ?st = "Struct e a an d t ht ev ch sh"
  let ?data = "\<lparr>bd_parent = (case parent of Default \<Rightarrow> Live body | _ \<Rightarrow> parent), bd_shadow = sh,
      bd_element = \<lparr>el_type = e, el_attr = a, el_attrNS = an, el_dataset = d\<rparr>\<rparr>"
  have children: "grows s3 (final_state (createChildren h ?st el cb s3))"
    if "0 < fresh s3" and "\<forall>x. el = Some x \<longrightarrow> x < fresh s3" for s3 el
  proof (cases ch)
    case None
    then show ?thesis
      by (simp add: final_state_createChildren grows_after_callback grows_refl del: createFromStruct.simps createChildren.simps createChildren_loop.simps)
  next
    case (Some cs)
    from "2.IH" [OF Some that] Some show ?thesis
      by (simp add: final_state_createChildren del: createFromStruct.simps createChildren.simps createChildren_loop.simps)
  qed
  show ?case
  proof (cases "e = []")
    case True
    then show ?thesis
      by (simp add: final_state_createFromStruct_general grows_refl del: createFromStruct.simps createChildren.simps createChildren_loop.simps)
  next
    case False
    obtain el s1 where sel: "TypeSelect (toLowerCase e) h ?data s = (el, s1)"
      by (cases "TypeSelect (toLowerCase e) h ?data s")
    from "2.prems" have "\<forall>p. bd_parent ?data = Live p \<longrightarrow> p < fresh s"
      by (cases parent) (simp_all add: body_def)
    from TypeSelect_ok [OF sel "2.prems"(1) this] have ok: "builder_ok s el s1" .
    then have g1: "grows s s1" by (rule grows_builder)
    show ?thesis
    proof (cases el)
      case None
      have "grows s1 (final_state (createChildren h ?st None cb s1))"
        by (rule children) (use g1 "2.prems"(1) in \<open>simp_all add: grows_fresh\<close>)
      with g1 have "grows s (final_state (createChildren h ?st None cb s1))"
        by (rule grows_trans)
      with g1 False sel None show ?thesis
        by (cases "t \<noteq> [] \<or> ht \<noteq> []")
          (simp_all add: final_state_createFromStruct_general del: createFromStruct.simps createChildren.simps createChildren_loop.simps)
    next
      case (Some x)
      let ?s3 = "createEventElement h ?st (Some x) (apply_content x t ht s1)"
      from ok Some have okx: "builder_ok s (Some x) s1" by simp
      note prep = grows_prepare [OF okx, of h ?st t ht]
      have "0 < fresh ?s3" using prep(2) by simp
      then have "grows ?s3 (final_state (createChildren h ?st (Some x) cb ?s3))"
        by (rule children) (use prep(2) in simp)
      with prep(1) have "grows s (final_state (createChildren h ?st (Some x) cb ?s3))"
        by (rule grows_trans)
      with False sel Some show ?thesis
        by (simp add: final_state_createFromStruct_general del: createFromStruct.simps createChildren.simps createChildren_loop.simps)
    qed
  qed
next
  case 3
  show ?case by (simp add: final_state_def grows_refl)
next
  case (4 c cs)
  let ?parent = "case el of None \<Rightarrow> Default | Some x \<Rightarrow> Live x"
  let ?s1 = "final_state (createFromStruct h (Data c ?parent) cb s)"
  from "4.prems"(2) have "\<forall>p. ?parent = Live p \<longrightarrow> p < fresh s"
    by (cases el) simp_all
  from "4.IH"(1) [OF "4.prems"(1) this] have g1: "grows s ?s1" .
  show ?case
  proof (cases "cs = []")
    case True
    with g1 show ?thesis
      by (simp add: final_state_loop_Cons_general Let_def grows_after_callback del: createFromStruct.simps createChildren.simps createChildren_loop.simps)
  next
    case False
    have "0 < fresh ?s1" and "\<forall>x. el = Some x \<longrightarrow> x < fresh ?s1"
      using g1 "4.prems" by (auto intro: grows_fresh)
    from "4.IH"(2) [OF this] have "grows ?s1 (final_state (createChildren_loop h cs el cb ?s1))" .
    with g1 have "grows s (final_state (createChildren_loop h cs el cb ?s1))"
      by (rule grows_trans)
    with False show ?thesis
      by (simp add: final_state_loop_Cons_general Let_def del: createFromStruct.simps createChildren.simps createChildren_loop.simps)
  qed
qed


text \<open>
  With an \<^verbatim>\<open>svg\<close> child in the place of the \<^verbatim>\<open>span\<close> the child is not even in the shadow
  tree: \<^verbatim>\<open>createSVGElement\<close> tests the parent for HTMLElement and SVGElement only, takes
  the shadow root for a description, builds an element of type \<^verbatim>\<open>undefined\<close> from it
  (node 4) and appends the \<^verbatim>\<open>svg\<close> (node 3) to that.
\<close>

lemma svg_under_boundary:
  "kind (dom boundary_svg_state 3) = SVGElement \<and> tagName (dom boundary_svg_state 3) = ''svg''
   \<and> parentNode (dom boundary_svg_state 3) = Some 4
   \<and> tagName (dom boundary_svg_state 4) = ''undefined''
   \<and> parentNode (dom boundary_svg_state 4) = None
   \<and> kind (dom boundary_svg_state 2) = ShadowRoot ''open''
   \<and> childNodes (dom boundary_svg_state 2) = []"
  by (simp add: boundary_svg_state_def boundary_svg_scenario_def string_defs dom_defs
      store_defs build_defs example_defs)



subsection \<open>An event whose action is not registered\<close>

lemma attached_from_new: "attached_new s p k t s1 \<Longrightarrow> attached s p k t s1"
  by (simp add: attached_new_def attached_def)

lemma attached_keeps:
  assumes "attached s p k t s1" and "keeps_below n s1 s2" and "fresh s < n" and "p < n"
    and "fresh s1 \<le> fresh s2"
  shows "attached s p k t s2"
proof -
  from assms(2,3) have "listeners (dom s2 (fresh s)) = listeners (dom s1 (fresh s))"
    "parentNode (dom s2 (fresh s)) = parentNode (dom s1 (fresh s))"
    "kind (dom s2 (fresh s)) = kind (dom s1 (fresh s))"
    "tagName (dom s2 (fresh s)) = tagName (dom s1 (fresh s))"
    "ActionRefStore s2 (fresh s) = ActionRefStore s1 (fresh s)"
    by (simp_all add: keeps_below_def)
  moreover from assms(2,4) have "set (childNodes (dom s1 p)) \<subseteq> set (childNodes (dom s2 p))"
    by (simp add: keeps_below_def)
  ultimately show ?thesis
    using assms(1,5) by (auto simp add: attached_def)
qed

lemma attached_grows:
  assumes "attached s p k t s1" and "grows s1 s2" and "p < fresh s"
  shows "attached s p k t s2"
proof -
  from assms(1) have c: "fresh s < fresh s1" by (simp add: attached_def)
  from assms(2) have kb: "keeps_below (fresh s1) s1 s2" and le: "fresh s1 \<le> fresh s2"
    by (simp_all add: grows_def)
  show ?thesis
    by (rule attached_keeps [OF assms(1) kb _ _ le]) (use c assms(3) in simp_all)
qed

lemma keeps_below_content:
  "childNodes (dom s x) = [] \<Longrightarrow> keeps_below n s (apply_content x t ht s)"
  by (simp add: apply_content_def Let_def replace_content_childless keeps_below_def)

lemma createEventElement_unresolved:
  "event st = Some ev \<Longrightarrow> EventActions h (action ev) = None \<Longrightarrow> createEventElement h st el s = s"
  by (simp add: createEventElement_def)

lemma createChildren_grows:
  assumes "0 < fresh s" and "\<forall>x. el = Some x \<longrightarrow> x < fresh s"
  shows "grows s (final_state (createChildren h (Struct e a an d t ht ev ch sh) el cb s))"
proof (cases ch)
  case None
  then show ?thesis
    by (simp add: final_state_createChildren grows_after_callback grows_refl
        del: createChildren.simps)
next
  case (Some cs)
  from compile_grows(2) [OF assms] Some show ?thesis
    by (simp add: final_state_createChildren del: createChildren.simps)
qed

lemma TypeSelect_attaches:
  assumes "e \<noteq> []"
    and "if is_svg e then valid_qualified_name h e else valid_element_name h e"
    and "p < fresh s" and "is_svg e \<longrightarrow> \<not> is_ShadowRoot (kind (dom s p))"
    and "TypeSelect (toLowerCase e) h
            \<lparr>bd_parent = Live p, bd_shadow = sh,
             bd_element = \<lparr>el_type = e, el_attr = a, el_attrNS = an, el_dataset = d\<rparr>\<rparr> s
          = (el, sB)"
  shows "attached s p (if is_svg e then SVGElement else HTMLElement)
            (if is_svg e then e else toLowerCase e) sB"
proof -
  let ?k = "if is_svg e then SVGElement else HTMLElement"
  let ?t = "if is_svg e then e else toLowerCase e"
  let ?desc = "\<lparr>el_type = e, el_attr = a, el_attrNS = an, el_dataset = d\<rparr>"
  from assms(3) have pc: "p \<noteq> fresh s" by simp
  from TypeSelect_buildable [OF assms(1,2) pc assms(4), of a an d] obtain s2
    where plain: "TypeSelect (toLowerCase e) h
            \<lparr>bd_parent = Live p, bd_shadow = [], bd_element = ?desc\<rparr> s = (Some (fresh s), s2)"
      and new: "attached_new s p ?k ?t s2"
    by blast
  from new have att2: "attached s p ?k ?t s2" by (rule attached_from_new)
  show ?thesis
  proof (cases "is_svg e")
    case True
    with plain assms(5) have "sB = s2"
      by (simp add: TypeSelect_def is_svg_def createSVGElement_def)
    with att2 show ?thesis by simp
  next
    case False
    with plain have html: "createHTMLElement h
        \<lparr>bd_parent = Live p, bd_shadow = [], bd_element = ?desc\<rparr> s = (Some (fresh s), s2)"
      by (simp add: TypeSelect_def is_svg_def)
    from False assms(5) have full: "createHTMLElement h
        \<lparr>bd_parent = Live p, bd_shadow = sh, bd_element = ?desc\<rparr> s = (el, sB)"
      by (simp add: TypeSelect_def is_svg_def)
    from new have fresh2: "fresh s2 = Suc (fresh s)" by (simp add: attached_new_def)
    have "sB = s2 \<or> (\<exists>x r. attachShadow h x sh s2 = Some (r, sB))"
      using html full
      by (auto simp add: createHTMLElement_def
          split: prod.splits option.splits sum.splits if_splits jsval.splits)
    then show ?thesis
    proof
      assume "sB = s2"
      with att2 show ?thesis by simp
    next
      assume "\<exists>x r. attachShadow h x sh s2 = Some (r, sB)"
      then obtain x r where sh: "attachShadow h x sh s2 = Some (r, sB)" by blast
      have kb: "keeps_below (fresh s2) s2 sB"
        by (rule keeps_below_attachShadow [OF sh]) simp
      show ?thesis
        by (rule attached_keeps [OF att2 kb])
          (use assms(3) attachShadow_result(2) [OF sh] in \<open>simp_all add: fresh2\<close>)
    qed
  qed
qed

lemma createFromStruct_event_irrelevant:
  assumes "EventActions h (action ev) = None"
  shows "final_state (createFromStruct h (Data (Struct e a an d t ht (Some ev) ch sh) parent) cb s)
     = final_state (createFromStruct h (Data (Struct e a an d t ht None ch sh) parent) cb s)"
  using assms
  by (simp add: final_state_createFromStruct_general final_state_createChildren
      createEventElement_def
      del: createFromStruct.simps createChildren.simps createChildren_loop.simps
      split: prod.splits option.splits)

lemma unresolved_action_attached:
  assumes "EventActions h (action ev) = None"
    and "e \<noteq> []" and "if is_svg e then valid_qualified_name h e else valid_element_name h e"
    and "parent = Live p \<or> (parent = Default \<and> p = body)"
    and "p < fresh s" and "is_svg e \<longrightarrow> \<not> is_ShadowRoot (kind (dom s p))"
    and "s' = final_state
           (createFromStruct h (Data (Struct e a an d t ht (Some ev) ch sh) parent) cb s)"
  shows "attached s p (if is_svg e then SVGElement else HTMLElement)
           (if is_svg e then e else toLowerCase e) s'"
proof -
  let ?st = "Struct e a an d t ht (Some ev) ch sh"
  let ?k = "if is_svg e then SVGElement else HTMLElement"
  let ?t = "if is_svg e then e else toLowerCase e"
  let ?data = "\<lparr>bd_parent = Live p, bd_shadow = sh,
      bd_element = \<lparr>el_type = e, el_attr = a, el_attrNS = an, el_dataset = d\<rparr>\<rparr>"
  from assms(4,7) have s': "s' = final_state (createFromStruct h (Data ?st (Live p)) cb s)"
    by (auto simp add: final_state_Default simp del: createFromStruct.simps)
  obtain el sB where sel: "TypeSelect (toLowerCase e) h ?data s = (el, sB)"
    by (cases "TypeSelect (toLowerCase e) h ?data s")
  from TypeSelect_attaches [OF assms(2,3,5,6) sel] have attB: "attached s p ?k ?t sB" .
  have pos: "0 < fresh s" using assms(5) by simp
  have "\<forall>q. bd_parent ?data = Live q \<longrightarrow> q < fresh s" using assms(5) by simp
  from TypeSelect_ok [OF sel pos this] have ok: "builder_ok s el sB" .
  then have leB: "fresh s \<le> fresh sB" by (simp add: builder_ok_def)
  show "attached s p ?k ?t s'"
  proof (cases el)
    case None
    show ?thesis
    proof (cases "t \<noteq> [] \<or> ht \<noteq> []")
      case True
      with None sel assms(2) have "s' = sB"
        unfolding s'
        by (simp add: final_state_createFromStruct_general
            del: createFromStruct.simps createChildren.simps)
      with attB show ?thesis by simp
    next
      case False
      with None sel assms(2) have "s' = final_state (createChildren h ?st None cb sB)"
        unfolding s'
        by (simp add: final_state_createFromStruct_general
            del: createFromStruct.simps createChildren.simps)
      moreover have "grows sB (final_state (createChildren h ?st None cb sB))"
        by (rule createChildren_grows) (use pos leB in simp_all)
      ultimately show ?thesis
        using attached_grows [OF attB _ assms(5)] by simp
    qed
  next
    case (Some x)
    let ?s3 = "apply_content x t ht sB"
    from ok Some have x: "x < fresh sB" "childNodes (dom sB x) = []"
      by (simp_all add: builder_ok_def)
    have ev: "createEventElement h ?st (Some x) ?s3 = ?s3"
      by (rule createEventElement_unresolved [OF _ assms(1)]) simp
    from Some sel assms(2) have "s' = final_state (createChildren h ?st (Some x) cb ?s3)"
      unfolding s'
      by (simp add: final_state_createFromStruct_general ev
          del: createFromStruct.simps createChildren.simps)
    moreover have "grows ?s3 (final_state (createChildren h ?st (Some x) cb ?s3))"
      by (rule createChildren_grows) (use pos leB x(1) in simp_all)
    moreover have "attached s p ?k ?t ?s3"
      by (rule attached_keeps [OF attB keeps_below_content [OF x(2)], of "fresh sB"])
        (use attB assms(5) in \<open>simp_all add: attached_def\<close>)
    ultimately show ?thesis
      using attached_grows [OF _ _ assms(5)] by simp
  qed
qed

text \<open>
  C8, as the claim states it: for every node description whose event names an action
  that \<^verbatim>\<open>EventActions\<close> does not have, compile builds the element and attaches it. It is
  false of an \<^verbatim>\<open>svg\<close> node compiled with \<^verbatim>\<open>parent: null\<close>: \<^verbatim>\<open>createSVGElement\<close> appends to a
  parent that is a live element or an object and has no fallback to the body, so the
  element is built (node 1) and left without a parent.
\<close>

theorem unresolved_action_counterexample:
  "EventActions permissive_host ''doesNotExist'' = None
   \<and> kind (dom unresolved_svg_state 1) = SVGElement
   \<and> tagName (dom unresolved_svg_state 1) = ''svg''
   \<and> fresh unresolved_svg_state = 2
   \<and> parentNode (dom unresolved_svg_state 1) = None
   \<and> 1 \<notin> set (childNodes (dom unresolved_svg_state body))"
  by (simp add: unresolved_svg_state_def unresolved_svg_scenario_def string_defs dom_defs
      store_defs build_defs example_defs)

text \<open>
  C8, amended. For every node whose event names an action that \<^verbatim>\<open>EventActions\<close> does not
  have, whatever its other fields, its children, the parent, the callback and the
  document: the state after the call is the state after compiling the same description
  without the event, so no listener is attached and no \<^verbatim>\<open>ActionRefStore\<close> entry is made
  for it; \<^verbatim>\<open>createFromStruct\<close> catches every exception, so the call returns.
  The element is built and attached when the host accepts the element type and the
  parent is a node \<open>p\<close> of the document (the body when none is given) that, for an \<^verbatim>\<open>svg\<close>
  node, is no shadow root: then the element (node \<open>fresh s\<close>) is of the described kind
  and type, it is a child of \<open>p\<close>, it has no listener, and \<^verbatim>\<open>ActionRefStore\<close> has for it
  the entry it had before the call (none, as the element did not exist).
\<close>

theorem unresolved_action_builds_without_listener:
  assumes "EventActions h (action ev) = None"
    and "s' = final_state
           (createFromStruct h (Data (Struct e a an d t ht (Some ev) ch sh) parent) cb s)"
  shows "s' = final_state
              (createFromStruct h (Data (Struct e a an d t ht None ch sh) parent) cb s)
     \<and> (e \<noteq> [] \<and> (if is_svg e then valid_qualified_name h e else valid_element_name h e)
          \<and> (parent = Live p \<or> (parent = Default \<and> p = body)) \<and> p < fresh s
          \<and> (is_svg e \<longrightarrow> \<not> is_ShadowRoot (kind (dom s p)))
        \<longrightarrow> kind (dom s' (fresh s)) = (if is_svg e then SVGElement else HTMLElement)
          \<and> tagName (dom s' (fresh s)) = (if is_svg e then e else toLowerCase e)
          \<and> parentNode (dom s' (fresh s)) = Some p \<and> fresh s \<in> set (childNodes (dom s' p))
          \<and> listeners (dom s' (fresh s)) = []
          \<and> ActionRefStore s' (fresh s) = ActionRefStore s (fresh s))"
proof (intro conjI impI)
  show "s' = final_state
      (createFromStruct h (Data (Struct e a an d t ht None ch sh) parent) cb s)"
    unfolding assms(2) by (rule createFromStruct_event_irrelevant [OF assms(1)])
next
  assume "e \<noteq> [] \<and> (if is_svg e then valid_qualified_name h e else valid_element_name h e)
      \<and> (parent = Live p \<or> (parent = Default \<and> p = body)) \<and> p < fresh s
      \<and> (is_svg e \<longrightarrow> \<not> is_ShadowRoot (kind (dom s p)))"
  then have "e \<noteq> []"
    and "if is_svg e then valid_qualified_name h e else valid_element_name h e"
    and "parent = Live p \<or> (parent = Default \<and> p = body)" and "p < fresh s"
    and "is_svg e \<longrightarrow> \<not> is_ShadowRoot (kind (dom s p))"
    by blast+
  from unresolved_action_attached [OF assms(1) this assms(2)]
  have att: "attached s p (if is_svg e then SVGElement else HTMLElement)
      (if is_svg e then e else toLowerCase e) s'" .
  from att show "kind (dom s' (fresh s)) = (if is_svg e then SVGElement else HTMLElement)"
    by (simp add: attached_def)
  from att show "tagName (dom s' (fresh s)) = (if is_svg e then e else toLowerCase e)"
    by (simp add: attached_def)
  from att show "parentNode (dom s' (fresh s)) = Some p"
    by (simp add: attached_def)
  from att show "fresh s \<in> set (childNodes (dom s' p))"
    by (simp add: attached_def)
  from att show "listeners (dom s' (fresh s)) = []"
    by (simp add: attached_def)
  from att show "ActionRefStore s' (fresh s) = ActionRefStore s (fresh s)"
    by (simp add: attached_def)
qed

theorem unresolved_action_builds_without_listener_witness:
  "unresolved_state = final_state (createFromStruct permissive_host
       (Data (Struct ''button'' [] [] [] [] [] None None []) Default) NoFunction empty_document)
   \<and> kind (dom unresolved_state 1) = HTMLElement \<and> tagName (dom unresolved_state 1) = ''button''
   \<and> parentNode (dom unresolved_state 1) = Some body
   \<and> 1 \<in> set (childNodes (dom unresolved_state body))
   \<and> listeners (dom unresolved_state 1) = []
   \<and> ActionRefStore unresolved_state 1 = None"
proof -
  let ?ev = "\<lparr>action = ''doesNotExist'', event_type = ''mousedown'', node = []\<rparr>"
  let ?plain = "final_state (createFromStruct permissive_host
       (Data (Struct ''button'' [] [] [] [] [] None None []) Default) NoFunction empty_document)"
  have unresolved: "EventActions permissive_host (action ?ev) = None"
    and run: "unresolved_state = final_state (createFromStruct permissive_host
          (Data (Struct ''button'' [] [] [] [] [] (Some ?ev) None []) Default) NoFunction
          empty_document)"
    by (simp_all add: permissive_host_def unresolved_state_def unresolved_scenario_def
        del: createFromStruct.simps)
  have accepted: "''button'' \<noteq> []
      \<and> (if is_svg ''button'' then valid_qualified_name permissive_host ''button''
         else valid_element_name permissive_host ''button'')
      \<and> (Default = Live body \<or> (Default = Default \<and> body = body))
      \<and> body < fresh empty_document
      \<and> (is_svg ''button'' \<longrightarrow> \<not> is_ShadowRoot (kind (dom empty_document body)))"
    by (simp add: permissive_host_def empty_document_def body_def new_node_def)
  from unresolved_action_builds_without_listener [OF unresolved run, of body] accepted
  have "unresolved_state = ?plain
      \<and> kind (dom unresolved_state (fresh empty_document)) =
          (if is_svg ''button'' then SVGElement else HTMLElement)
      \<and> tagName (dom unresolved_state (fresh empty_document)) =
          (if is_svg ''button'' then ''button'' else toLowerCase ''button'')
      \<and> parentNode (dom unresolved_state (fresh empty_document)) = Some body
      \<and> fresh empty_document \<in> set (childNodes (dom unresolved_state body))
      \<and> listeners (dom unresolved_state (fresh empty_document)) = []
      \<and> ActionRefStore unresolved_state (fresh empty_document)
          = ActionRefStore empty_document (fresh empty_document)"
    by blast
  then have "kind (dom unresolved_state 1) = HTMLElement
      \<and> tagName (dom unresolved_state 1) = ''button''
      \<and> parentNode (dom unresolved_state 1) = Some body
      \<and> 1 \<in> set (childNodes (dom unresolved_state body))
      \<and> listeners (dom unresolved_state 1) = []
      \<and> ActionRefStore unresolved_state 1 = None"
    and "unresolved_state = ?plain"
    by (simp_all add: is_svg_def string_defs empty_document_def)
  then show ?thesis
    by blast
qed

end
